theory Spec2Isabelle
  imports Main "HOL-Library.Sublist"
begin

section \<open>Data model (src/scraper/models.py)\<close>

text \<open>
  A Python \<open>str\<close> is modelled as a \<open>string\<close> in which one \<open>char\<close> stands for one
  code point, so \<open>length\<close> and \<open>take\<close> count what \<open>len\<close> and slicing count.
  The field names \<open>text\<close>, \<open>id\<close> and \<open>type\<close> of the source are prefixed, since they
  clash with Isabelle names.
\<close>

record LinkItem =
  link_text :: string
  link_href :: string

record ImageItem =
  img_src :: string
  img_alt :: string

record SectionContent =
  headings :: "string list"
  content_text :: string
  links :: "LinkItem list"
  images :: "ImageItem list"
  lists :: "string list list"
  tables :: "string list list list"

record Section =
  section_id :: string
  section_type :: string
  label :: string
  sourceUrl :: string
  content :: SectionContent
  rawHtml :: string
  truncated :: bool

record MetaData =
  title :: string
  description :: string
  language :: string
  canonical :: string

record Interactions =
  clicks :: "string list"
  scrolls :: nat
  pages :: "string list"

record ErrorItem =
  message :: string
  phase :: string

record ScrapeResult =
  url :: string
  scrapedAt :: string
  meta :: MetaData
  sections :: "Section list"
  interactions :: Interactions
  errors :: "ErrorItem list"

text \<open>\<open>MetaData()\<close>: every field at its default, the empty string.\<close>

definition MetaData_default :: MetaData where
  "MetaData_default = \<lparr>title = '''', description = '''', language = '''', canonical = ''''\<rparr>"

section \<open>Exceptions\<close>

text \<open>
  The handlers of \<open>static_scrape\<close> tell three classes of a failed fetch apart. Every
  other handler of the program only reads \<open>str(e)\<close>, so an exception raised while
  parsing or driving the browser is the string \<open>str(e)\<close>.
\<close>

datatype fetch_error = TimeoutException | HTTPStatusError nat | FetchException string

datatype error = Error (str: string)

section \<open>Python string operations\<close>

fun digit_char :: "nat \<Rightarrow> char" where
  "digit_char n = ''0123456789'' ! n"

text \<open>\<open>str(n)\<close> for a non-negative integer: its decimal digits.\<close>

fun str_nat :: "nat \<Rightarrow> string" where
  "str_nat n = (if n < 10 then [digit_char n] else str_nat (n div 10) @ [digit_char (n mod 10)])"

declare str_nat.simps [simp del]

text \<open>\<open>x in s\<close> for strings: \<open>x\<close> occurs in \<open>s\<close> as a contiguous substring.\<close>

fun str_in :: "string \<Rightarrow> string \<Rightarrow> bool" where
  "str_in x [] = (x = [])"
| "str_in x (c # cs) = (prefix x (c # cs) \<or> str_in x cs)"

text \<open>\<open>s.startswith((p1, p2, ...))\<close>.\<close>

definition startswith :: "string \<Rightarrow> string list \<Rightarrow> bool" where
  "startswith s ps = (\<exists>p \<in> set ps. prefix p s)"

text \<open>
  \<open>str.lower\<close> on code points below 256: the ASCII capitals and the Latin-1 capitals
  (192 to 222 without the multiplication sign 215) move up by 32.
\<close>

definition lower_char :: "char \<Rightarrow> char" where
  "lower_char c =
     (let n = of_char c :: nat
      in if (65 \<le> n \<and> n \<le> 90) \<or> (192 \<le> n \<and> n \<le> 222 \<and> n \<noteq> 215) then char_of (n + 32) else c)"

definition lower :: "string \<Rightarrow> string" where
  "lower s = map lower_char s"

definition upper_char :: "char \<Rightarrow> char" where
  "upper_char c =
     (let n = of_char c :: nat
      in if 97 \<le> n \<and> n \<le> 122 then char_of (n - 32) else c)"

text \<open>
  \<open>str.capitalize\<close>, for the tag names it is applied to (ASCII): the first character
  in upper case, the rest in lower case.
\<close>

definition capitalize :: "string \<Rightarrow> string" where
  "capitalize s = (case s of [] \<Rightarrow> [] | c # cs \<Rightarrow> upper_char c # lower cs)"

text \<open>\<open>sep.join(parts)\<close>.\<close>

fun join :: "string \<Rightarrow> string list \<Rightarrow> string" where
  "join sep [] = []"
| "join sep [p] = p"
| "join sep (p # q # ps) = p @ sep @ join sep (q # ps)"

text \<open>The code points below 256 that \<open>str.split()\<close> treats as white space.\<close>

definition is_space :: "char \<Rightarrow> bool" where
  "is_space c =
     (let n = of_char c :: nat
      in (9 \<le> n \<and> n \<le> 13) \<or> (28 \<le> n \<and> n \<le> 32) \<or> n = 133 \<or> n = 160)"

text \<open>\<open>s.split()\<close>: the maximal runs of characters that are not white space.\<close>

fun split_acc :: "string \<Rightarrow> string \<Rightarrow> string list" where
  "split_acc w [] = (if w = [] then [] else [w])"
| "split_acc w (c # cs) =
     (if is_space c then (if w = [] then split_acc [] cs else w # split_acc [] cs)
      else split_acc (w @ [c]) cs)"

definition split :: "string \<Rightarrow> string list" where
  "split s = split_acc [] s"

text \<open>The truth value of an \<open>Optional[str]\<close>: neither \<open>None\<close> nor empty.\<close>

fun truthy :: "string option \<Rightarrow> bool" where
  "truthy None = False"
| "truthy (Some s) = (s \<noteq> [])"

text \<open>\<open>v or ""\<close> for an \<open>Optional[str]\<close>.\<close>

fun or_empty :: "string option \<Rightarrow> string" where
  "or_empty None = []"
| "or_empty (Some s) = s"

section \<open>The document-parse collaborator\<close>

text \<open>
  A node of the parsed document, as the code observes it through the parser's
  interface: \<open>node.tag\<close>, \<open>node.attributes\<close> (a dictionary whose values are
  \<open>None\<close> for an attribute written without a value), \<open>node.html\<close>,
  \<open>node.text(strip=True)\<close> and \<open>node.css(selector)\<close>, the matching nodes in
  document order. The parsed tree answers the same queries as its root node.
\<close>

datatype element = Element
  (tag: "string option")
  (attributes: "string \<Rightarrow> string option option")
  (html: "string option")
  (text_strip: string)
  (css: "string \<Rightarrow> element list")

text \<open>\<open>node.css_first(selector)\<close>: the first match, or \<open>None\<close>.\<close>

definition css_first :: "element \<Rightarrow> string \<Rightarrow> element option" where
  "css_first e sel = (case css e sel of [] \<Rightarrow> None | x # _ \<Rightarrow> Some x)"

text \<open>\<open>node.attributes.get(key, default)\<close>; the result \<open>None\<close> is Python's \<open>None\<close>.\<close>

definition attributes_get :: "element \<Rightarrow> string \<Rightarrow> string \<Rightarrow> string option" where
  "attributes_get e k d = (case attributes e k of None \<Rightarrow> Some d | Some v \<Rightarrow> v)"

text \<open>
  The library functions the code calls: \<open>urljoin\<close> and the scheme of
  \<open>urlparse\<close> (both taken to return a string for every argument; a malformed
  reference on which the library raises \<open>ValueError\<close> is outside the model), the HTTP
  request of \<open>static_scrape\<close> (the response text, or the exception raised by the
  client or by \<open>raise_for_status\<close>), the parser's constructor (which may raise)
  and, for \<open>remove_noise\<close>, the effect on the tree of decomposing every node that
  matches one selector (a failure inside it is swallowed by the caller, so it is a
  total function on trees).
\<close>

record lib =
  urljoin :: "string \<Rightarrow> string \<Rightarrow> string"
  urlparse_scheme :: "string \<Rightarrow> string"
  fetch :: "string \<Rightarrow> fetch_error + string"
  HTMLParser :: "string \<Rightarrow> error + element"
  decompose_matching :: "string \<Rightarrow> element \<Rightarrow> element"

section \<open>Static pass (src/scraper/static_scraper.py)\<close>

definition NOISE_SELECTORS :: "string list" where
  "NOISE_SELECTORS =
    [''[class*=\"cookie\"]'', ''[class*=\"Cookie\"]'',
     ''[class*=\"consent\"]'', ''[class*=\"Consent\"]'',
     ''[class*=\"modal\"]'', ''[class*=\"Modal\"]'',
     ''[class*=\"popup\"]'', ''[class*=\"Popup\"]'',
     ''[class*=\"newsletter\"]'', ''[class*=\"Newsletter\"]'',
     ''[class*=\"banner\"]'', ''[id*=\"cookie\"]'',
     ''[id*=\"consent\"]'', ''[id*=\"modal\"]'',
     ''[id*=\"popup\"]'', ''[id*=\"newsletter\"]'',
     ''[aria-label*=\"cookie\"]'', ''[aria-label*=\"consent\"]'',
     ''script'', ''style'', ''noscript'', ''iframe'',
     ''[hidden]'', ''[aria-hidden=\"true\"]'']"

definition SECTION_SELECTORS :: "string list" where
  "SECTION_SELECTORS = [''header'', ''nav'', ''main'', ''section'', ''article'', ''aside'', ''footer'']"

definition SECTION_TYPE_MAP :: "string \<rightharpoonup> string" where
  "SECTION_TYPE_MAP =
    [''header'' \<mapsto> ''hero'', ''nav'' \<mapsto> ''nav'', ''footer'' \<mapsto> ''footer'',
     ''main'' \<mapsto> ''section'', ''section'' \<mapsto> ''section'', ''article'' \<mapsto> ''section'',
     ''aside'' \<mapsto> ''section'']"

definition extract_metadata :: "lib \<Rightarrow> element \<Rightarrow> string \<Rightarrow> MetaData" where
  "extract_metadata L tree u =
    (let title0 = (case css_first tree ''title'' of None \<Rightarrow> '''' | Some t \<Rightarrow> text_strip t);
         title1 = (case css_first tree ''meta[property=\"og:title\"]'' of
                     None \<Rightarrow> Some title0
                   | Some og \<Rightarrow> if truthy (attributes_get og ''content'' '''')
                               then attributes_get og ''content'' title0 else Some title0);
         description0 = (case css_first tree ''meta[name=\"description\"]'' of
                     None \<Rightarrow> Some ''''
                   | Some d \<Rightarrow> attributes_get d ''content'' '''');
         language0 = (case css_first tree ''html'' of
                     None \<Rightarrow> Some ''''
                   | Some h \<Rightarrow> attributes_get h ''lang'' '''');
         canonical0 = (case css_first tree ''link[rel=\"canonical\"]'' of
                     None \<Rightarrow> Some ''''
                   | Some c \<Rightarrow> attributes_get c ''href'' '''');
         canonical1 = (if truthy canonical0 then Some (urljoin L u (or_empty canonical0)) else canonical0)
     in \<lparr>title = or_empty title1, description = or_empty description0,
         language = or_empty language0, canonical = or_empty canonical1\<rparr>)"

definition make_absolute_url :: "lib \<Rightarrow> string \<Rightarrow> string \<Rightarrow> string" where
  "make_absolute_url L h base_url =
    (if h = [] then ''''
     else if startswith h [''http://'', ''https://'', ''//''] then
       (if startswith h [''//''] then urlparse_scheme L base_url @ '':'' @ h else h)
     else urljoin L base_url h)"

text \<open>The body of the loop over \<open>element.css('a[href]')\<close>: the links one anchor adds.\<close>

definition link_items :: "lib \<Rightarrow> string \<Rightarrow> element \<Rightarrow> LinkItem list" where
  "link_items L base_url a =
    (let h = attributes_get a ''href'' ''''; lt = text_strip a
     in if truthy h \<and> \<not> startswith (or_empty h) [''#'', ''javascript:'', ''mailto:'', ''tel:'']
        then [\<lparr>link_text = (if lt \<noteq> [] then lt else or_empty h),
               link_href = make_absolute_url L (or_empty h) base_url\<rparr>]
        else [])"

text \<open>The body of the loop over \<open>element.css('img[src]')\<close>.\<close>

definition image_items :: "lib \<Rightarrow> string \<Rightarrow> element \<Rightarrow> ImageItem list" where
  "image_items L base_url img =
    (let s = attributes_get img ''src'' ''''; alt = attributes_get img ''alt'' ''''
     in if truthy s
        then [\<lparr>img_src = make_absolute_url L (or_empty s) base_url, img_alt = or_empty alt\<rparr>]
        else [])"

text \<open>The texts of the nodes, without the empty ones (\<open>if text: xs.append(text)\<close>).\<close>

definition nonempty_texts :: "element list \<Rightarrow> string list" where
  "nonempty_texts es = filter (\<lambda>t. t \<noteq> []) (map text_strip es)"

definition table_rows :: "element \<Rightarrow> string list list" where
  "table_rows table =
     filter (\<lambda>row. row \<noteq> []) (map (\<lambda>tr. map text_strip (css tr ''th, td'')) (css table ''tr''))"

definition extract_section_content :: "lib \<Rightarrow> element \<Rightarrow> string \<Rightarrow> SectionContent" where
  "extract_section_content L e base_url =
    (let hs = nonempty_texts (css e ''h1, h2, h3, h4, h5, h6'');
         text_parts0 = nonempty_texts (css e ''p'');
         text_parts = (if text_parts0 = []
                       then (if text_strip e \<noteq> [] then [take 500 (text_strip e)] else [])
                       else text_parts0);
         ls = concat (map (link_items L base_url) (css e ''a[href]''));
         imgs = concat (map (image_items L base_url) (css e ''img[src]''));
         lsts = filter (\<lambda>items. items \<noteq> [])
                  (map (\<lambda>ul. nonempty_texts (css ul ''li'')) (css e ''ul, ol''));
         tbls = filter (\<lambda>t. t \<noteq> []) (map table_rows (css e ''table''))
     in \<lparr>headings = hs, content_text = join '' '' text_parts, links = take 50 ls,
         images = take 20 imgs, lists = take 10 lsts, tables = take 5 tbls\<rparr>)"

text \<open>\<open>any(x in combined for x in keywords)\<close>.\<close>

definition any_in :: "string list \<Rightarrow> string \<Rightarrow> bool" where
  "any_in kws combined = (\<exists>x \<in> set kws. str_in x combined)"

text \<open>
  \<open>.lower()\<close> applied to the value of \<open>attributes.get\<close>: on \<open>None\<close> (an attribute
  without a value) Python raises AttributeError.
\<close>

definition lower_attr :: "string option \<Rightarrow> error + string" where
  "lower_attr v =
     (case v of None \<Rightarrow> Inl (Error (CHR 0x27 # ''NoneType'' @ CHR 0x27 # '' object has no attribute '' @ CHR 0x27 # ''lower'' @ [CHR 0x27]))
      | Some s \<Rightarrow> Inr (lower s))"

definition determine_section_type :: "element \<Rightarrow> SectionContent \<Rightarrow> error + string" where
  "determine_section_type e c =
    (let tag_name = (if truthy (tag e) then lower (or_empty (tag e)) else '''');
         base_type = (case SECTION_TYPE_MAP tag_name of Some t \<Rightarrow> t | None \<Rightarrow> ''unknown'')
     in case lower_attr (attributes_get e ''class'' '''') of Inl err \<Rightarrow> Inl err
        | Inr classes \<Rightarrow>
      (case lower_attr (attributes_get e ''id'' '''') of Inl err \<Rightarrow> Inl err
        | Inr element_id \<Rightarrow>
       (let combined = classes @ '' '' @ element_id
        in if any_in [''hero'', ''banner'', ''jumbotron'', ''splash''] combined then Inr ''hero''
           else if any_in [''nav'', ''menu'', ''navigation''] combined then Inr ''nav''
           else if any_in [''footer'', ''foot''] combined then Inr ''footer''
           else if any_in [''faq'', ''accordion'', ''question''] combined then Inr ''faq''
           else if any_in [''price'', ''pricing'', ''plan''] combined then Inr ''pricing''
           else if any_in [''grid'', ''cards'', ''gallery''] combined then Inr ''grid''
           else if any_in [''list'', ''items''] combined then Inr ''list''
           else Inr base_type)))"

definition generate_label :: "element \<Rightarrow> SectionContent \<Rightarrow> string" where
  "generate_label e c =
    (case headings c of h # _ \<Rightarrow> take 50 h
     | [] \<Rightarrow>
       (let aria_label = attributes_get e ''aria-label'' ''''
        in if truthy aria_label then take 50 (or_empty aria_label)
           else if content_text c \<noteq> [] then join '' '' (take 7 (split (content_text c)))
           else capitalize (if truthy (tag e) then or_empty (tag e) else ''Section'') @ '' Section''))"

definition remove_noise :: "lib \<Rightarrow> element \<Rightarrow> element" where
  "remove_noise L tree = foldl (\<lambda>t selector. decompose_matching L selector t) tree NOISE_SELECTORS"

text \<open>
  The part of the loop body of \<open>extract_sections\<close> after the type is known: the id
  from the counter, the markup cut at 1000 characters, the section record.
\<close>

definition make_section :: "lib \<Rightarrow> string \<Rightarrow> element \<Rightarrow> SectionContent \<Rightarrow> string \<Rightarrow> nat \<Rightarrow> Section" where
  "make_section L u e c st n =
    (let lbl = generate_label e c;
         sid = st @ ''-'' @ str_nat n;
         raw_html = or_empty (html e)
     in if length raw_html > 1000
        then \<lparr>section_id = sid, section_type = st, label = lbl, sourceUrl = u, content = c,
              rawHtml = take 1000 raw_html @ ''...'', truncated = True\<rparr>
        else \<lparr>section_id = sid, section_type = st, label = lbl, sourceUrl = u, content = c,
              rawHtml = raw_html, truncated = False\<rparr>)"

text \<open>
  The inner loop \<open>for element in tree.css(selector)\<close>. The state is the list
  \<open>sections\<close> and the dictionary \<open>section_counts\<close>; a missing key counts as 0, which
  is what the source stores before it reads the counter.
\<close>

fun scan_elements ::
  "lib \<Rightarrow> string \<Rightarrow> element list \<Rightarrow> Section list \<times> (string \<rightharpoonup> nat)
     \<Rightarrow> error + Section list \<times> (string \<rightharpoonup> nat)" where
  "scan_elements L u [] acc = Inr acc"
| "scan_elements L u (e # es) (secs, section_counts) =
    (let c = extract_section_content L e u
     in if content_text c = [] \<and> headings c = [] \<and> links c = []
        then scan_elements L u es (secs, section_counts)
        else (case determine_section_type e c of
                Inl err \<Rightarrow> Inl err
              | Inr st \<Rightarrow>
                 (let n = (case section_counts st of None \<Rightarrow> 0 | Some k \<Rightarrow> k)
                  in scan_elements L u es
                       (secs @ [make_section L u e c st n], section_counts(st \<mapsto> n + 1)))))"

text \<open>The outer loop \<open>for selector in SECTION_SELECTORS\<close>.\<close>

fun scan_selectors ::
  "lib \<Rightarrow> string \<Rightarrow> element \<Rightarrow> string list \<Rightarrow> Section list \<times> (string \<rightharpoonup> nat)
     \<Rightarrow> error + Section list \<times> (string \<rightharpoonup> nat)" where
  "scan_selectors L u tree [] acc = Inr acc"
| "scan_selectors L u tree (selector # sels) acc =
    (case scan_elements L u (css tree selector) acc of
       Inl err \<Rightarrow> Inl err
     | Inr acc' \<Rightarrow> scan_selectors L u tree sels acc')"

text \<open>The fallback section built from the \<open>body\<close> element.\<close>

definition body_section :: "lib \<Rightarrow> string \<Rightarrow> element \<Rightarrow> Section" where
  "body_section L u body =
    (let c = extract_section_content L body u;
         raw_html = or_empty (html body);
         trunc = (length raw_html > 1000)
     in \<lparr>section_id = ''body-0'', section_type = ''unknown'', label = generate_label body c,
         sourceUrl = u, content = c,
         rawHtml = (if trunc then take 1000 raw_html @ ''...'' else raw_html),
         truncated = trunc\<rparr>)"

definition extract_sections :: "lib \<Rightarrow> element \<Rightarrow> string \<Rightarrow> error + Section list" where
  "extract_sections L tree u =
    (case scan_selectors L u tree SECTION_SELECTORS ([], Map.empty) of
       Inl err \<Rightarrow> Inl err
     | Inr (secs, section_counts) \<Rightarrow>
        if secs = []
        then (case css_first tree ''body'' of
                None \<Rightarrow> Inr []
              | Some body \<Rightarrow> Inr [body_section L u body])
        else Inr secs)"

definition get_text_content_length :: "element \<Rightarrow> nat" where
  "get_text_content_length tree =
    (case css_first tree ''body'' of Some body \<Rightarrow> length (text_strip body) | None \<Rightarrow> 0)"

text \<open>
  The second \<open>try\<close> block of \<open>static_scrape\<close>: \<open>Inl\<close> is the exception that its
  handler catches, \<open>Inr\<close> the metadata, the sections and \<open>needs_js\<close>.
\<close>

definition static_parse :: "lib \<Rightarrow> string \<Rightarrow> string \<Rightarrow> error + MetaData \<times> Section list \<times> bool" where
  "static_parse L u html_content =
    (case HTMLParser L html_content of
       Inl err \<Rightarrow> Inl err
     | Inr tree0 \<Rightarrow>
        (let tree = remove_noise L tree0;
             text_length = get_text_content_length tree;
             needs_js = (if text_length < 500 then True else False);
             metadata = extract_metadata L tree u
         in case extract_sections L tree u of
              Inl err \<Rightarrow> Inl err
            | Inr secs \<Rightarrow>
               Inr (metadata, secs,
                    (if secs = [] \<or> list_all (\<lambda>s. content_text (content s) = []) secs
                     then True else needs_js))))"

text \<open>
  \<open>static_scrape\<close> returns \<open>(metadata, sections, errors, html_content, needs_js)\<close>.
\<close>

definition static_scrape ::
  "lib \<Rightarrow> string \<Rightarrow> MetaData \<times> Section list \<times> ErrorItem list \<times> string \<times> bool" where
  "static_scrape L u =
    (case fetch L u of
       Inl TimeoutException \<Rightarrow>
         (MetaData_default, [], [\<lparr>message = ''Request timeout'', phase = ''fetch''\<rparr>], '''', True)
     | Inl (HTTPStatusError status_code) \<Rightarrow>
         (MetaData_default, [], [\<lparr>message = ''HTTP '' @ str_nat status_code, phase = ''fetch''\<rparr>],
          '''', True)
     | Inl (FetchException msg) \<Rightarrow>
         (MetaData_default, [], [\<lparr>message = msg, phase = ''fetch''\<rparr>], '''', True)
     | Inr html_content \<Rightarrow>
        (case static_parse L u html_content of
           Inl e \<Rightarrow>
             (MetaData_default, [], [\<lparr>message = str e, phase = ''parse''\<rparr>], html_content, True)
         | Inr (metadata, secs, needs_js) \<Rightarrow> (metadata, secs, [], html_content, needs_js)))"

section \<open>The browser-automation collaborator\<close>

text \<open>
  The headless browser is driven through a page whose state \<open>'p\<close> is opaque; \<open>'h\<close> is
  an element handle. Every awaited call returns the page state after it together with
  its value or the exception it raised. \<open>new_page\<close> stands for opening the driver,
  launching the browser and opening a context and a page, any of which may raise.
\<close>

record ('p, 'h) browser =
  new_page :: "error + 'p"
  goto :: "'p \<Rightarrow> string \<Rightarrow> string \<Rightarrow> nat \<Rightarrow> (error + unit) \<times> 'p"
  wait_for_timeout :: "'p \<Rightarrow> nat \<Rightarrow> (error + unit) \<times> 'p"
  query_selector_all :: "'p \<Rightarrow> string \<Rightarrow> (error + 'h list) \<times> 'p"
  query_selector :: "'p \<Rightarrow> string \<Rightarrow> (error + 'h option) \<times> 'p"
  is_visible :: "'p \<Rightarrow> 'h \<Rightarrow> (error + bool) \<times> 'p"
  click :: "'p \<Rightarrow> 'h \<Rightarrow> (error + unit) \<times> 'p"
  get_attribute :: "'p \<Rightarrow> 'h \<Rightarrow> string \<Rightarrow> (error + string option) \<times> 'p"
  evaluate :: "'p \<Rightarrow> string \<Rightarrow> (error + unit) \<times> 'p"
  wait_for_load_state :: "'p \<Rightarrow> string \<Rightarrow> nat \<Rightarrow> (error + unit) \<times> 'p"
  page_url :: "'p \<Rightarrow> string"
  page_content :: "'p \<Rightarrow> (error + string) \<times> 'p"
  context_close :: "'p \<Rightarrow> error + unit"

section \<open>Render pass (src/scraper/js_scraper.py)\<close>

definition TAB_SELECTORS :: "string list" where
  "TAB_SELECTORS =
    [''[role=\"tab\"]'', ''button[aria-controls]'', ''.tab'', ''[data-toggle=\"tab\"]'',
     ''.nav-link[data-bs-toggle=\"tab\"]'']"

definition LOAD_MORE_SELECTORS :: "string list" where
  "LOAD_MORE_SELECTORS =
    [''button:has-text(\"Load more\")'', ''button:has-text(\"Show more\")'',
     ''button:has-text(\"See more\")'', ''button:has-text(\"View more\")'',
     ''[class*=\"load-more\"]'', ''[class*=\"loadmore\"]'', ''[class*=\"show-more\"]'',
     ''[data-action=\"load-more\"]'']"

definition PAGINATION_SELECTORS :: "string list" where
  "PAGINATION_SELECTORS =
    [''a:has-text(\"Next\")'', ''a:has-text(\"next\")'', ''[rel=\"next\"]'',
     ''.pagination a:last-child'', ''[aria-label=\"Next page\"]'', ''.next > a'', ''a.next'']"

text \<open>\<open>ErrorItem(message=f"{pre}{str(e)[:50]}", phase=ph)\<close>.\<close>

definition error_item :: "string \<Rightarrow> error \<Rightarrow> string \<Rightarrow> ErrorItem" where
  "error_item pre e ph = \<lparr>message = pre @ take 50 (str e), phase = ph\<rparr>"

text \<open>
  \<open>click_tabs\<close>, inner loop over \<open>tabs[:3]\<close>: an exception of \<open>is_visible\<close>,
  \<open>click\<close> or the pause is swallowed and the loop goes on with the next tab.
\<close>

fun click_tab_handles ::
  "('p, 'h) browser \<Rightarrow> string \<Rightarrow> 'h list \<Rightarrow> 'p \<times> Interactions \<Rightarrow> 'p \<times> Interactions" where
  "click_tab_handles B selector [] acc = acc"
| "click_tab_handles B selector (tab # tabs) (p, inters) =
    (case is_visible B p tab of
       (Inl e, p1) \<Rightarrow> click_tab_handles B selector tabs (p1, inters)
     | (Inr False, p1) \<Rightarrow> click_tab_handles B selector tabs (p1, inters)
     | (Inr True, p1) \<Rightarrow>
        (case click B p1 tab of
           (Inl e, p2) \<Rightarrow> click_tab_handles B selector tabs (p2, inters)
         | (Inr _, p2) \<Rightarrow>
            click_tab_handles B selector tabs
              (snd (wait_for_timeout B p2 500), inters\<lparr>clicks := clicks inters @ [selector]\<rparr>)))"

fun click_tabs_loop ::
  "('p, 'h) browser \<Rightarrow> string list \<Rightarrow> 'p \<times> Interactions \<times> ErrorItem list
     \<Rightarrow> 'p \<times> Interactions \<times> ErrorItem list" where
  "click_tabs_loop B [] acc = acc"
| "click_tabs_loop B (selector # sels) (p, inters, errs) =
    (case query_selector_all B p selector of
       (Inl e, p1) \<Rightarrow>
         click_tabs_loop B sels (p1, inters, errs @ [error_item ''Tab click error: '' e ''interaction''])
     | (Inr tabs, p1) \<Rightarrow>
         (case click_tab_handles B selector (take 3 tabs) (p1, inters) of
            (p2, inter2) \<Rightarrow> click_tabs_loop B sels (p2, inter2, errs)))"

definition click_tabs ::
  "('p, 'h) browser \<Rightarrow> 'p \<times> Interactions \<times> ErrorItem list \<Rightarrow> 'p \<times> Interactions \<times> ErrorItem list" where
  "click_tabs B acc = click_tabs_loop B TAB_SELECTORS acc"

text \<open>
  \<open>click_load_more\<close>, the loop \<open>for _ in range(3)\<close> for one selector: every
  exception inside it breaks the loop, so the outer handler of the source, which would
  record a "Load more error", is never reached.
\<close>

fun load_more_iter ::
  "('p, 'h) browser \<Rightarrow> string \<Rightarrow> nat \<Rightarrow> 'p \<times> Interactions \<Rightarrow> 'p \<times> Interactions" where
  "load_more_iter B selector 0 acc = acc"
| "load_more_iter B selector (Suc k) (p, inters) =
    (case query_selector B p selector of
       (Inl e, p1) \<Rightarrow> (p1, inters)
     | (Inr None, p1) \<Rightarrow> (p1, inters)
     | (Inr (Some button), p1) \<Rightarrow>
        (case is_visible B p1 button of
           (Inl e, p2) \<Rightarrow> (p2, inters)
         | (Inr False, p2) \<Rightarrow> (p2, inters)
         | (Inr True, p2) \<Rightarrow>
            (case click B p2 button of
               (Inl e, p3) \<Rightarrow> (p3, inters)
             | (Inr _, p3) \<Rightarrow>
                (case wait_for_timeout B p3 1000 of
                   (Inl e, p4) \<Rightarrow> (p4, inters\<lparr>clicks := clicks inters @ [selector]\<rparr>)
                 | (Inr _, p4) \<Rightarrow>
                    load_more_iter B selector k (p4, inters\<lparr>clicks := clicks inters @ [selector]\<rparr>)))))"

fun click_load_more_loop ::
  "('p, 'h) browser \<Rightarrow> string list \<Rightarrow> 'p \<times> Interactions \<Rightarrow> 'p \<times> Interactions" where
  "click_load_more_loop B [] acc = acc"
| "click_load_more_loop B (selector # sels) acc =
     click_load_more_loop B sels (load_more_iter B selector 3 acc)"

definition click_load_more ::
  "('p, 'h) browser \<Rightarrow> 'p \<times> Interactions \<times> ErrorItem list \<Rightarrow> 'p \<times> Interactions \<times> ErrorItem list" where
  "click_load_more B acc =
    (case acc of (p, inters, errs) \<Rightarrow>
      (case click_load_more_loop B LOAD_MORE_SELECTORS (p, inters) of
         (p', inters') \<Rightarrow> (p', inters', errs)))"

text \<open>
  \<open>perform_scrolls\<close>, the loop \<open>for i in range(scroll_count)\<close>: the first component
  is the exception that left the loop, if one did.
\<close>

fun scroll_iter ::
  "('p, 'h) browser \<Rightarrow> nat \<Rightarrow> 'p \<times> Interactions \<Rightarrow> error option \<times> 'p \<times> Interactions" where
  "scroll_iter B 0 (p, inters) = (None, p, inters)"
| "scroll_iter B (Suc k) (p, inters) =
    (case evaluate B p ''window.scrollTo(0, document.body.scrollHeight)'' of
       (Inl e, p1) \<Rightarrow> (Some e, p1, inters)
     | (Inr _, p1) \<Rightarrow>
        (case wait_for_timeout B p1 1500 of
           (Inl e, p2) \<Rightarrow> (Some e, p2, inters\<lparr>scrolls := scrolls inters + 1\<rparr>)
         | (Inr _, p2) \<Rightarrow>
            scroll_iter B k
              (snd (wait_for_load_state B p2 ''networkidle'' 3000),
               inters\<lparr>scrolls := scrolls inters + 1\<rparr>)))"

definition perform_scrolls ::
  "('p, 'h) browser \<Rightarrow> nat \<Rightarrow> 'p \<times> Interactions \<times> ErrorItem list
     \<Rightarrow> 'p \<times> Interactions \<times> ErrorItem list" where
  "perform_scrolls B scroll_count acc =
    (case acc of (p, inters, errs) \<Rightarrow>
      (case scroll_iter B scroll_count (p, inters) of
         (None, p', inters') \<Rightarrow> (p', inters', errs)
       | (Some e, p', inters') \<Rightarrow>
           (p', inters', errs @ [error_item ''Scroll error: '' e ''interaction''])))"

text \<open>
  \<open>follow_pagination\<close>, the scan of \<open>PAGINATION_SELECTORS\<close> for the first visible
  link whose href is not yet visited; an exception moves on to the next selector.
\<close>

fun find_next_link ::
  "('p, 'h) browser \<Rightarrow> string list \<Rightarrow> string list \<Rightarrow> 'p \<Rightarrow> 'h option \<times> 'p" where
  "find_next_link B visited_urls [] p = (None, p)"
| "find_next_link B visited_urls (selector # sels) p =
    (case query_selector B p selector of
       (Inl e, p1) \<Rightarrow> find_next_link B visited_urls sels p1
     | (Inr None, p1) \<Rightarrow> find_next_link B visited_urls sels p1
     | (Inr (Some link), p1) \<Rightarrow>
        (case is_visible B p1 link of
           (Inl e, p2) \<Rightarrow> find_next_link B visited_urls sels p2
         | (Inr False, p2) \<Rightarrow> find_next_link B visited_urls sels p2
         | (Inr True, p2) \<Rightarrow>
            (case get_attribute B p2 link ''href'' of
               (Inl e, p3) \<Rightarrow> find_next_link B visited_urls sels p3
             | (Inr h, p3) \<Rightarrow>
                if truthy h \<and> or_empty h \<notin> set visited_urls then (Some link, p3)
                else find_next_link B visited_urls sels p3)))"

text \<open>After a followed link: record the current URL if it is new.\<close>

definition record_page ::
  "('p, 'h) browser \<Rightarrow> 'p \<Rightarrow> Interactions \<times> string list \<Rightarrow> Interactions \<times> string list" where
  "record_page B p acc =
    (case acc of (inters, visited_urls) \<Rightarrow>
      (let current_url = page_url B p
       in if current_url \<notin> set visited_urls
          then (inters\<lparr>pages := pages inters @ [current_url]\<rparr>, visited_urls @ [current_url])
          else (inters, visited_urls)))"

fun pagination_iter ::
  "('p, 'h) browser \<Rightarrow> nat \<Rightarrow> 'p \<times> Interactions \<times> string list \<Rightarrow> 'p \<times> Interactions \<times> string list" where
  "pagination_iter B 0 acc = acc"
| "pagination_iter B (Suc k) (p, inters, visited_urls) =
    (case find_next_link B visited_urls PAGINATION_SELECTORS p of
       (None, p1) \<Rightarrow> (p1, inters, visited_urls)
     | (Some next_link, p1) \<Rightarrow>
        (case click B p1 next_link of
           (Inl e, p2) \<Rightarrow> pagination_iter B k (p2, inters, visited_urls)
         | (Inr _, p2) \<Rightarrow>
            (case wait_for_load_state B p2 ''networkidle'' 5000 of
               (Inr _, p3) \<Rightarrow>
                 (case record_page B p3 (inters, visited_urls) of
                    (inters', visited') \<Rightarrow> pagination_iter B k (p3, inters', visited'))
             | (Inl e, p3) \<Rightarrow>
                 (case wait_for_timeout B p3 2000 of
                    (Inl e', p4) \<Rightarrow> pagination_iter B k (p4, inters, visited_urls)
                  | (Inr _, p4) \<Rightarrow>
                     (case record_page B p4 (inters, visited_urls) of
                        (inters', visited') \<Rightarrow> pagination_iter B k (p4, inters', visited'))))))"

definition follow_pagination ::
  "('p, 'h) browser \<Rightarrow> nat \<Rightarrow> 'p \<times> Interactions \<Rightarrow> 'p \<times> Interactions \<times> string list" where
  "follow_pagination B max_pages acc =
    (case acc of (p, inters) \<Rightarrow> pagination_iter B (max_pages - 1) (p, inters, [page_url B p]))"

text \<open>
  The merge of \<open>js_scrape\<close>. For a rendered section whose id is among the existing
  ids, the loop over \<open>enumerate(sections)\<close> stops at the first entry with that id and
  replaces it only if the rendered text is strictly longer.
\<close>

fun replace_first :: "Section \<Rightarrow> Section list \<Rightarrow> Section list" where
  "replace_first sec [] = []"
| "replace_first sec (existing # rest) =
    (if section_id existing = section_id sec
     then (if length (content_text (content sec)) > length (content_text (content existing))
           then sec # rest else existing # rest)
     else existing # replace_first sec rest)"

text \<open>The loop \<open>for sec in js_sections\<close>; \<open>existing_ids\<close> is computed once, before it.\<close>

fun merge_loop :: "string set \<Rightarrow> Section list \<Rightarrow> Section list \<Rightarrow> Section list" where
  "merge_loop existing_ids secs [] = secs"
| "merge_loop existing_ids secs (sec # js_sections) =
    (if section_id sec \<notin> existing_ids
     then merge_loop existing_ids (secs @ [sec]) js_sections
     else merge_loop existing_ids (replace_first sec secs) js_sections)"

definition merge_sections :: "Section list \<Rightarrow> Section list \<Rightarrow> Section list" where
  "merge_sections secs js_sections =
    (if js_sections \<noteq> [] then merge_loop (section_id ` set secs) secs js_sections else secs)"

text \<open>
  The inner \<open>try\<close> block of \<open>js_scrape\<close> on the captured document, with its handler:
  the metadata, the sections and the error list after it.
\<close>

definition js_parse ::
  "lib \<Rightarrow> string \<Rightarrow> MetaData option \<Rightarrow> string \<Rightarrow> MetaData \<times> Section list \<times> ErrorItem list
     \<Rightarrow> MetaData \<times> Section list \<times> ErrorItem list" where
  "js_parse L u existing_metadata html_content acc =
    (case acc of (metadata, secs, errs) \<Rightarrow>
      (case HTMLParser L html_content of
         Inl e \<Rightarrow> (metadata, secs, errs @ [error_item ''Parse error: '' e ''parse''])
       | Inr tree0 \<Rightarrow>
          (let tree = remove_noise L tree0;
               metadata1 = (case existing_metadata of
                              None \<Rightarrow> extract_metadata L tree u
                            | Some m \<Rightarrow> if title m = [] then extract_metadata L tree u else metadata)
           in case extract_sections L tree u of
                Inl e \<Rightarrow> (metadata1, secs, errs @ [error_item ''Parse error: '' e ''parse''])
              | Inr js_sections \<Rightarrow> (metadata1, merge_sections secs js_sections, errs))))"

text \<open>
  \<open>js_scrape\<close> from the settle pause on, once navigation has succeeded. An exception
  that reaches the outer handler is recorded as a "Browser error".
\<close>

definition js_interact ::
  "('p, 'h) browser \<Rightarrow> lib \<Rightarrow> string \<Rightarrow> MetaData option \<Rightarrow> MetaData \<Rightarrow> Section list \<Rightarrow> 'p
     \<Rightarrow> MetaData \<times> Section list \<times> ErrorItem list \<times> Interactions" where
  "js_interact B L u existing_metadata metadata secs p =
    (let interactions0 = \<lparr>clicks = [], scrolls = 0, pages = [u]\<rparr>
     in case wait_for_timeout B p 1000 of
          (Inl e, p1) \<Rightarrow> (metadata, secs, [error_item ''Browser error: '' e ''render''], interactions0)
        | (Inr _, p1) \<Rightarrow>
           (case click_tabs B (p1, interactions0, []) of (p2, inter2, errs2) \<Rightarrow>
            (case click_load_more B (p2, inter2, errs2) of (p3, inter3, errs3) \<Rightarrow>
             (case perform_scrolls B 3 (p3, inter3, errs3) of (p4, inter4, errs4) \<Rightarrow>
              (case follow_pagination B 3 (p4, inter4) of (p5, inter5, visited_urls) \<Rightarrow>
               (case page_content B p5 of
                  (Inl e, p6) \<Rightarrow>
                    (metadata, secs, errs4 @ [error_item ''Browser error: '' e ''render''], inter5)
                | (Inr html_content, p6) \<Rightarrow>
                   (case js_parse L u existing_metadata html_content (metadata, secs, errs4) of
                      (metadata', secs', errs5) \<Rightarrow>
                       (case context_close B p6 of
                          Inl e \<Rightarrow>
                            (metadata', secs',
                             errs5 @ [error_item ''Browser error: '' e ''render''], inter5)
                        | Inr _ \<Rightarrow> (metadata', secs', errs5, inter5)))))))))"

text \<open>
  \<open>js_scrape\<close> returns \<open>(metadata, sections, errors, interactions)\<close>. The arguments
  \<open>existing_metadata\<close> and \<open>existing_sections\<close> default to \<open>None\<close>.
\<close>

definition js_scrape ::
  "('p, 'h) browser \<Rightarrow> lib \<Rightarrow> string \<Rightarrow> MetaData option \<Rightarrow> Section list option
     \<Rightarrow> MetaData \<times> Section list \<times> ErrorItem list \<times> Interactions" where
  "js_scrape B L u existing_metadata existing_sections =
    (let interactions0 = \<lparr>clicks = [], scrolls = 0, pages = [u]\<rparr>;
         metadata = (case existing_metadata of None \<Rightarrow> MetaData_default | Some m \<Rightarrow> m);
         secs = (case existing_sections of None \<Rightarrow> [] | Some s \<Rightarrow> s)
     in case new_page B of
          Inl e \<Rightarrow> (metadata, secs, [error_item ''Browser error: '' e ''render''], interactions0)
        | Inr p \<Rightarrow>
           (case goto B p u ''networkidle'' 15000 of
              (Inr _, p1) \<Rightarrow> js_interact B L u existing_metadata metadata secs p1
            | (Inl e, p1) \<Rightarrow>
               (case goto B p1 u ''domcontentloaded'' 10000 of
                  (Inl e2, p2) \<Rightarrow>
                    (metadata, secs, [error_item ''Navigation failed: '' e2 ''render''],
                     interactions0)
                | (Inr _, p2) \<Rightarrow> js_interact B L u existing_metadata metadata secs p2)))"

section \<open>Request handler (src/main.py)\<close>

text \<open>\<open>scrape_url\<close>; the time stamp \<open>scraped_at\<close> is read from the clock.\<close>

definition scrape_url :: "('p, 'h) browser \<Rightarrow> lib \<Rightarrow> string \<Rightarrow> string \<Rightarrow> ScrapeResult" where
  "scrape_url B L u scraped_at =
    (case static_scrape L u of (metadata, secs, errs, html_content, needs_js) \<Rightarrow>
      if needs_js \<or> secs = []
      then (case js_scrape B L u (if title metadata \<noteq> [] then Some metadata else None) (Some secs) of
              (js_metadata, js_sections, js_errors, js_interactions) \<Rightarrow>
                \<lparr>url = u, scrapedAt = scraped_at,
                 meta = (if title js_metadata \<noteq> [] then js_metadata else metadata),
                 sections = (if js_sections \<noteq> [] then js_sections else secs),
                 interactions = js_interactions,
                 errors = errs @ js_errors\<rparr>)
      else \<lparr>url = u, scrapedAt = scraped_at, meta = metadata, sections = secs,
            interactions = \<lparr>clicks = [], scrolls = 0, pages = [u]\<rparr>, errors = errs\<rparr>)"

section \<open>Notions used in the statements\<close>

text \<open>The test of the primary scan's filter: no text, no headings and no links.\<close>

definition empty_content :: "SectionContent \<Rightarrow> bool" where
  "empty_content c = (content_text c = [] \<and> headings c = [] \<and> links c = [])"

text \<open>How many sections of a list have the type \<open>t\<close>.\<close>

definition count_type :: "string \<Rightarrow> Section list \<Rightarrow> nat" where
  "count_type t secs = length (filter (\<lambda>s. section_type s = t) secs)"

text \<open>
  Every id in the list is its section's type, a hyphen, and the number of sections of
  that type that come before it in the list.
\<close>

definition ordinal_ids :: "Section list \<Rightarrow> bool" where
  "ordinal_ids secs =
     list_all (\<lambda>i. section_id (secs ! i) =
                  section_type (secs ! i) @ ''-'' @
                  str_nat (count_type (section_type (secs ! i)) (take i secs)))
       [0..<length secs]"

text \<open>The dictionary \<open>section_counts\<close> agrees with the sections emitted so far.\<close>

definition counts_match :: "(string \<rightharpoonup> nat) \<Rightarrow> Section list \<Rightarrow> bool" where
  "counts_match cnt secs = (\<forall>t. (case cnt t of None \<Rightarrow> 0 | Some k \<Rightarrow> k) = count_type t secs)"

text \<open>
  The merge rule in the words of the specification: of an existing entry and a
  rendered section with the same id, the one with the strictly longer text; the existing
  entry on a tie, and when the ids differ.
\<close>

definition longer_of :: "Section \<Rightarrow> Section \<Rightarrow> Section" where
  "longer_of sec existing =
     (if section_id existing = section_id sec \<and>
         length (content_text (content sec)) > length (content_text (content existing))
      then sec else existing)"

text \<open>An existing entry after every rendered section has been merged into it, in order.\<close>

definition final_entry :: "Section list \<Rightarrow> Section \<Rightarrow> Section" where
  "final_entry js ex = foldl (\<lambda>x sec. longer_of sec x) ex js"

text \<open>
  The length of the visible body text that the static pass measures, when the fetch
  and the parser's constructor both succeed.
\<close>

definition body_text_length :: "lib \<Rightarrow> string \<Rightarrow> nat option" where
  "body_text_length L u =
    (case fetch L u of
       Inl err \<Rightarrow> None
     | Inr markup \<Rightarrow>
        (case HTMLParser L markup of
           Inl err \<Rightarrow> None
         | Inr tree \<Rightarrow> Some (get_text_content_length (remove_noise L tree))))"

text \<open>The error list of a result of \<open>static_scrape\<close>, and of \<open>js_scrape\<close>.\<close>

definition static_errors ::
  "MetaData \<times> Section list \<times> ErrorItem list \<times> string \<times> bool \<Rightarrow> ErrorItem list" where
  "static_errors r = (case r of (metadata, secs, errs, html_content, needs_js) \<Rightarrow> errs)"

definition js_errors_of ::
  "MetaData \<times> Section list \<times> ErrorItem list \<times> Interactions \<Rightarrow> ErrorItem list" where
  "js_errors_of r = (case r of (metadata, secs, errs, inters) \<Rightarrow> errs)"

text \<open>
  The bound that the render pass keeps: the longest prefix it writes,
  \<open>Navigation failed: \<close>, has 19 characters, and at most 50 characters of \<open>str(e)\<close>
  follow a prefix.
\<close>

definition bounded_message :: "ErrorItem \<Rightarrow> bool" where
  "bounded_message x = (length (message x) \<le> 69)"

text \<open>
  The classification in the words of the specification: the keyword groups in their
  priority order, each with the type it stands for; the first group with a keyword
  that occurs in the combined string wins, and without one the base type of the tag
  stands, or \<open>unknown\<close>.
\<close>

definition KEYWORD_GROUPS :: "(string list \<times> string) list" where
  "KEYWORD_GROUPS =
    [([''hero'', ''banner'', ''jumbotron'', ''splash''], ''hero''),
     ([''nav'', ''menu'', ''navigation''], ''nav''),
     ([''footer'', ''foot''], ''footer''),
     ([''faq'', ''accordion'', ''question''], ''faq''),
     ([''price'', ''pricing'', ''plan''], ''pricing''),
     ([''grid'', ''cards'', ''gallery''], ''grid''),
     ([''list'', ''items''], ''list'')]"

definition classify_spec :: "string \<Rightarrow> string \<Rightarrow> string" where
  "classify_spec tag_name combined =
    (case find (\<lambda>g. any_in (fst g) combined) KEYWORD_GROUPS of
       Some g \<Rightarrow> snd g
     | None \<Rightarrow> (case SECTION_TYPE_MAP tag_name of Some t \<Rightarrow> t | None \<Rightarrow> ''unknown''))"


text \<open>
  An absolute URL begins with a scheme and a colon: a letter, then letters, digits,
  \<open>+\<close>, \<open>-\<close> or \<open>.\<close>, then \<open>:\<close> (RFC 3986).
\<close>

definition is_alpha :: "char \<Rightarrow> bool" where
  "is_alpha c =
     (let n = of_char c :: nat in (65 \<le> n \<and> n \<le> 90) \<or> (97 \<le> n \<and> n \<le> 122))"

definition is_scheme_char :: "char \<Rightarrow> bool" where
  "is_scheme_char c =
     (let n = of_char c :: nat
      in is_alpha c \<or> (48 \<le> n \<and> n \<le> 57) \<or> c = CHR ''+'' \<or> c = CHR ''-'' \<or> c = CHR ''.'')"

fun scheme_then_colon :: "string \<Rightarrow> bool" where
  "scheme_then_colon [] = False"
| "scheme_then_colon (c # cs) = (c = CHR '':'' \<or> (is_scheme_char c \<and> scheme_then_colon cs))"

definition is_absolute_url :: "string \<Rightarrow> bool" where
  "is_absolute_url s = (case s of [] \<Rightarrow> False | c # cs \<Rightarrow> is_alpha c \<and> scheme_then_colon cs)"

section \<open>Example inputs\<close>

text \<open>
  Collaborators with fixed answers: the request returns \<open>response\<close>, the parser
  \<open>parsed\<close>, noise removal finds nothing, and \<open>urljoin\<close> appends a path to a base
  without one.
\<close>

definition test_lib :: "(fetch_error + string) \<Rightarrow> (error + element) \<Rightarrow> lib" where
  "test_lib response parsed =
     \<lparr>urljoin = (\<lambda>base h. base @ h), urlparse_scheme = (\<lambda>base. ''https''),
      fetch = (\<lambda>u. response), HTMLParser = (\<lambda>markup. parsed),
      decompose_matching = (\<lambda>selector tree. tree)\<rparr>"

text \<open>The collaborators for one page: the request returns the page's markup.\<close>

definition page_lib :: "element \<Rightarrow> lib" where
  "page_lib page = test_lib (Inr (or_empty (html page))) (Inr page)"

definition example_url :: string where
  "example_url = ''https://example.com''"

text \<open>An element without attributes and without element children.\<close>

definition leaf :: "string \<Rightarrow> string \<Rightarrow> string \<Rightarrow> element" where
  "leaf t markup txt = Element (Some t) (\<lambda>k. None) (Some markup) txt (\<lambda>sel. [])"

text \<open>\<open><html><head></head><body></body></html>\<close>\<close>

definition blank_body :: element where
  "blank_body = leaf ''body'' ''<body></body>'' ''''"

definition blank_page :: element where
  "blank_page =
     Element (Some ''html'') (\<lambda>k. None) (Some ''<html><head></head><body></body></html>'') ''''
       ((\<lambda>sel. [])(''body'' := [blank_body]))"

text \<open>\<open><html><head></head><body>Hello world</body></html>\<close>\<close>

definition plain_body :: element where
  "plain_body = leaf ''body'' ''<body>Hello world</body>'' ''Hello world''"

definition plain_page :: element where
  "plain_page =
     Element (Some ''html'') (\<lambda>k. None)
       (Some ''<html><head></head><body>Hello world</body></html>'') ''Hello world''
       ((\<lambda>sel. [])(''body'' := [plain_body]))"

text \<open>
  \<open><body><nav></nav><nav>Home</nav><section>Alpha</section><section>Beta</section></body>\<close>
\<close>

definition empty_nav :: element where
  "empty_nav = leaf ''nav'' ''<nav></nav>'' ''''"

definition home_nav :: element where
  "home_nav = leaf ''nav'' ''<nav>Home</nav>'' ''Home''"

definition alpha_section :: element where
  "alpha_section = leaf ''section'' ''<section>Alpha</section>'' ''Alpha''"

definition beta_section :: element where
  "beta_section = leaf ''section'' ''<section>Beta</section>'' ''Beta''"

definition landmarks_page :: element where
  "landmarks_page =
     Element (Some ''html'') (\<lambda>k. None)
       (Some ''<html><head></head><body><nav></nav><nav>Home</nav><section>Alpha</section><section>Beta</section></body></html>'')
       ''HomeAlphaBeta''
       ((\<lambda>sel. [])(''nav'' := [empty_nav, home_nav],
                     ''section'' := [alpha_section, beta_section],
                     ''body'' := [leaf ''body''
                        ''<body><nav></nav><nav>Home</nav><section>Alpha</section><section>Beta</section></body>''
                        ''HomeAlphaBeta'']))"

text \<open>A section whose markup has 1219 characters.\<close>

definition long_section :: element where
  "long_section =
     leaf ''section'' (''<section>'' @ replicate 1200 CHR ''x'' @ ''</section>'')
       (replicate 1200 CHR ''x'')"

definition long_page :: element where
  "long_page =
     Element (Some ''html'') (\<lambda>k. None)
       (Some (''<html><head></head><body><section>'' @ replicate 1200 CHR ''x'' @
              ''</section></body></html>''))
       (replicate 1200 CHR ''x'')
       ((\<lambda>sel. [])(''section'' := [long_section],
                     ''body'' := [leaf ''body''
                        (''<body><section>'' @ replicate 1200 CHR ''x'' @ ''</section></body>'')
                        (replicate 1200 CHR ''x'')]))"

text \<open>A page whose body is one section with 600 characters of text.\<close>

definition text_section :: element where
  "text_section =
     leaf ''section'' (''<section>'' @ replicate 600 CHR ''a'' @ ''</section>'')
       (replicate 600 CHR ''a'')"

definition text_page :: element where
  "text_page =
     Element (Some ''html'') (\<lambda>k. None)
       (Some (''<html><head></head><body><section>'' @ replicate 600 CHR ''a'' @
              ''</section></body></html>''))
       (replicate 600 CHR ''a'')
       ((\<lambda>sel. [])(''section'' := [text_section],
                     ''body'' := [leaf ''body''
                        (''<body><section>'' @ replicate 600 CHR ''a'' @ ''</section></body>'')
                        (replicate 600 CHR ''a'')]))"

text \<open>\<open><section><a href="/about"></a></section>\<close>: an anchor without text.\<close>

definition about_anchor :: element where
  "about_anchor =
     Element (Some ''a'') ((\<lambda>k. None)(''href'' := Some (Some ''/about'')))
       (Some ''<a href=\"/about\"></a>'') '''' (\<lambda>sel. [])"

definition link_section :: element where
  "link_section =
     Element (Some ''section'') (\<lambda>k. None) (Some ''<section><a href=\"/about\"></a></section>'') ''''
       ((\<lambda>sel. [])(''a[href]'' := [about_anchor]))"

text \<open>\<open><section class>Plans</section>\<close>: the attribute \<open>class\<close> has no value.\<close>

definition valueless_class_section :: element where
  "valueless_class_section =
     Element (Some ''section'') ((\<lambda>k. None)(''class'' := Some None))
       (Some ''<section class>Plans</section>'') ''Plans'' (\<lambda>sel. [])"

text \<open>\<open><section class="pricing-table">Plans</section>\<close>\<close>

definition pricing_table_section :: element where
  "pricing_table_section =
     Element (Some ''section'') ((\<lambda>k. None)(''class'' := Some (Some ''pricing-table'')))
       (Some ''<section class=\"pricing-table\">Plans</section>'') ''Plans'' (\<lambda>sel. [])"

text \<open>A section record with the given id, type and text.\<close>

definition section_with :: "string \<Rightarrow> string \<Rightarrow> string \<Rightarrow> Section" where
  "section_with i t txt =
     \<lparr>section_id = i, section_type = t, label = txt, sourceUrl = example_url,
      content = \<lparr>headings = [], content_text = txt, links = [], images = [], lists = [],
                 tables = []\<rparr>,
      rawHtml = '''', truncated = False\<rparr>"

text \<open>A browser in which a page opens and every later call raises.\<close>

definition stalled_browser :: "(unit, unit) browser" where
  "stalled_browser =
     \<lparr>new_page = Inr (),
      goto = (\<lambda>p u w t. (Inl (Error ''Timeout exceeded''), p)),
      wait_for_timeout = (\<lambda>p t. (Inl (Error ''Target closed''), p)),
      query_selector_all = (\<lambda>p s. (Inl (Error ''Target closed''), p)),
      query_selector = (\<lambda>p s. (Inl (Error ''Target closed''), p)),
      is_visible = (\<lambda>p h. (Inl (Error ''Target closed''), p)),
      click = (\<lambda>p h. (Inl (Error ''Target closed''), p)),
      get_attribute = (\<lambda>p h a. (Inl (Error ''Target closed''), p)),
      evaluate = (\<lambda>p s. (Inl (Error ''Target closed''), p)),
      wait_for_load_state = (\<lambda>p s t. (Inl (Error ''Target closed''), p)),
      page_url = (\<lambda>p. example_url),
      page_content = (\<lambda>p. (Inl (Error ''Target closed''), p)),
      context_close = (\<lambda>p. Inr ())\<rparr>"

text \<open>
  A page addressed by a \<open>data:\<close> URL, which the browser renders. The request of the
  static pass raises for it. Against such a base \<open>urljoin\<close> returns a reference
  unchanged, since the scheme \<open>data\<close> has no relative resolution.
\<close>

definition data_url :: string where
  "data_url = ''data:text/html,<section><a href=\"/about\"></a></section>''"

definition data_url_page :: element where
  "data_url_page =
     Element (Some ''html'') (\<lambda>k. None)
       (Some ''<html><head></head><body><section><a href=\"/about\"></a></section></body></html>'')
       ''''
       ((\<lambda>sel. [])(''section'' := [link_section], ''a[href]'' := [about_anchor],
                     ''body'' := [Element (Some ''body'') (\<lambda>k. None)
                        (Some ''<body><section><a href=\"/about\"></a></section></body>'') ''''
                        ((\<lambda>sel. [])(''section'' := [link_section],
                                      ''a[href]'' := [about_anchor]))]))"

definition data_url_lib :: lib where
  "data_url_lib =
     \<lparr>urljoin = (\<lambda>base h. if h = [] then base else h), urlparse_scheme = (\<lambda>base. ''data''),
      fetch = (\<lambda>u. Inl (FetchException ''Request URL has an unsupported protocol'')),
      HTMLParser = (\<lambda>markup. Inr data_url_page),
      decompose_matching = (\<lambda>selector tree. tree)\<rparr>"








section \<open>Evaluation of the string operations\<close>

lemma str_nat_0: "str_nat 0 = ''0''"
  by (simp add: str_nat.simps)

lemma str_nat_1: "str_nat (Suc 0) = ''1''"
  by (simp add: str_nat.simps)

section \<open>The section scan\<close>

lemma make_section_simps:
  "section_type (make_section L u e c st n) = st"
  "section_id (make_section L u e c st n) = st @ ''-'' @ str_nat n"
  "content (make_section L u e c st n) = c"
  "rawHtml (make_section L u e c st n) =
     (if length (or_empty (html e)) > 1000 then take 1000 (or_empty (html e)) @ ''...''
      else or_empty (html e))"
  "truncated (make_section L u e c st n) = (length (or_empty (html e)) > 1000)"
  by (simp_all add: make_section_def Let_def)

lemma body_section_simps:
  "section_type (body_section L u e) = ''unknown''"
  "section_id (body_section L u e) = ''body-0''"
  "content (body_section L u e) = extract_section_content L e u"
  "rawHtml (body_section L u e) =
     (if length (or_empty (html e)) > 1000 then take 1000 (or_empty (html e)) @ ''...''
      else or_empty (html e))"
  "truncated (body_section L u e) = (length (or_empty (html e)) > 1000)"
  by (simp_all add: body_section_def Let_def)

text \<open>The scan of a concatenation is the scan of its parts, one after the other.\<close>

lemma scan_elements_append:
  "scan_elements L u (xs @ ys) acc =
     (case scan_elements L u xs acc of Inl err \<Rightarrow> Inl err | Inr acc' \<Rightarrow> scan_elements L u ys acc')"
proof (induction xs arbitrary: acc)
  case Nil
  show ?case by simp
next
  case (Cons e xs)
  obtain secs cnt where acc: "acc = (secs, cnt)" by (cases acc)
  show ?case
    unfolding acc by (simp add: Let_def Cons.IH split: sum.splits)
qed

text \<open>
  The two nested loops of \<open>extract_sections\<close> visit the matches of the selectors one
  list after the other.
\<close>

lemma scan_selectors_concat:
  "scan_selectors L u tree sels acc = scan_elements L u (concat (map (css tree) sels)) acc"
proof (induction sels arbitrary: acc)
  case Nil
  show ?case by simp
next
  case (Cons sel sels)
  show ?case by (simp add: scan_elements_append Cons.IH split: sum.splits)
qed

text \<open>
  What the scan adds: each new section is built by \<open>make_section\<close> from one of the
  scanned elements, whose content passed the filter and whose type was determined.
\<close>

lemma scan_elements_emits:
  "scan_elements L u es (secs, cnt) = Inr (secs', cnt') \<Longrightarrow>
   \<exists>new. secs' = secs @ new \<and>
     (\<forall>s \<in> set new. \<exists>e \<in> set es. \<exists>st n.
        \<not> empty_content (extract_section_content L e u) \<and>
        determine_section_type e (extract_section_content L e u) = Inr st \<and>
        s = make_section L u e (extract_section_content L e u) st n)"
proof (induction es arbitrary: secs cnt)
  case Nil
  then show ?case by simp
next
  case (Cons e es)
  let ?c = "extract_section_content L e u"
  let ?n = "\<lambda>st. case cnt st of None \<Rightarrow> 0 | Some k \<Rightarrow> k"
  show ?case
  proof (cases "empty_content ?c")
    case True
    with Cons.prems have "scan_elements L u es (secs, cnt) = Inr (secs', cnt')"
      by (simp add: empty_content_def Let_def)
    from Cons.IH[OF this] show ?thesis by auto
  next
    case False
    with Cons.prems obtain st where st: "determine_section_type e ?c = Inr st"
      and rest: "scan_elements L u es
          (secs @ [make_section L u e ?c st (?n st)], cnt(st \<mapsto> ?n st + 1)) = Inr (secs', cnt')"
      by (auto simp: empty_content_def Let_def split: sum.splits)
    from Cons.IH[OF rest] obtain new
      where new: "secs' = (secs @ [make_section L u e ?c st (?n st)]) @ new"
      and P: "\<forall>s \<in> set new. \<exists>e \<in> set es. \<exists>st n.
        \<not> empty_content (extract_section_content L e u) \<and>
        determine_section_type e (extract_section_content L e u) = Inr st \<and>
        s = make_section L u e (extract_section_content L e u) st n" by blast
    show ?thesis
      apply (rule exI[of _ "make_section L u e ?c st (?n st) # new"])
      using new P False st by auto
  qed
qed

section \<open>The per-type counter\<close>

lemma ordinal_ids_snoc:
  assumes "ordinal_ids secs"
    and "section_id s = section_type s @ ''-'' @ str_nat (count_type (section_type s) secs)"
  shows "ordinal_ids (secs @ [s])"
  using assms
  by (auto simp: ordinal_ids_def list_all_iff nth_append)

lemma counts_match_step:
  assumes "counts_match cnt secs" and "section_type s = st"
  shows "counts_match (cnt(st \<mapsto> (case cnt st of None \<Rightarrow> 0 | Some k \<Rightarrow> k) + 1)) (secs @ [s])"
  using assms by (auto simp: counts_match_def count_type_def)

text \<open>
  The loop invariant: the counters agree with the sections emitted so far, and every
  id emitted so far is the type with its ordinal.
\<close>

lemma scan_elements_ordinals:
  "scan_elements L u es (secs, cnt) = Inr (secs', cnt') \<Longrightarrow>
   counts_match cnt secs \<Longrightarrow> ordinal_ids secs \<Longrightarrow>
   counts_match cnt' secs' \<and> ordinal_ids secs'"
proof (induction es arbitrary: secs cnt)
  case Nil
  then show ?case by simp
next
  case (Cons e es)
  let ?c = "extract_section_content L e u"
  show ?case
  proof (cases "content_text ?c = [] \<and> headings ?c = [] \<and> links ?c = []")
    case True
    with Cons.prems(1) have "scan_elements L u es (secs, cnt) = Inr (secs', cnt')"
      by (simp add: Let_def)
    from Cons.IH[OF this Cons.prems(2,3)] show ?thesis .
  next
    case False
    let ?n = "\<lambda>st. case cnt st of None \<Rightarrow> 0 | Some k \<Rightarrow> k"
    from False Cons.prems(1) obtain st where st: "determine_section_type e ?c = Inr st"
      and rest: "scan_elements L u es
          (secs @ [make_section L u e ?c st (?n st)], cnt(st \<mapsto> ?n st + 1)) = Inr (secs', cnt')"
      by (auto simp: Let_def split: sum.splits)
    have n: "?n st = count_type st secs"
      using Cons.prems(2) by (simp add: counts_match_def)
    have a: "counts_match (cnt(st \<mapsto> ?n st + 1)) (secs @ [make_section L u e ?c st (?n st)])"
      by (rule counts_match_step[OF Cons.prems(2)]) (simp add: make_section_simps)
    have b: "ordinal_ids (secs @ [make_section L u e ?c st (?n st)])"
      by (rule ordinal_ids_snoc[OF Cons.prems(3)]) (simp add: make_section_simps n)
    from Cons.IH[OF rest a b] show ?thesis .
  qed
qed

section \<open>The merge\<close>

lemma longer_of_id: "section_id (longer_of sec ex) = section_id ex"
  by (simp add: longer_of_def)

lemma replace_first_distinct:
  "distinct (map section_id xs) \<Longrightarrow> replace_first sec xs = map (longer_of sec) xs"
proof (induction xs)
  case Nil
  show ?case by simp
next
  case (Cons x xs)
  show ?case
  proof (cases "section_id x = section_id sec")
    case True
    with Cons.prems have "section_id sec \<notin> section_id ` set xs" by simp
    then have "\<forall>y \<in> set xs. section_id y \<noteq> section_id sec" by (metis imageI)
    then have tl: "map (longer_of sec) xs = xs"
      by (induction xs) (auto simp: longer_of_def)
    have hd: "longer_of sec x =
        (if length (content_text (content sec)) > length (content_text (content x)) then sec else x)"
      using True by (simp add: longer_of_def)
    show ?thesis using True by (simp add: hd tl)
  next
    case False
    with Cons show ?thesis by (simp add: longer_of_def)
  qed
qed

lemma replace_first_append:
  "section_id sec \<in> section_id ` set xs \<Longrightarrow>
   replace_first sec (xs @ app) = replace_first sec xs @ app"
  by (induction xs) auto

lemma final_entry_Nil: "final_entry [] = (\<lambda>x. x)"
  by (simp add: fun_eq_iff final_entry_def)

lemma final_entry_Cons: "final_entry (sec # js) ex = final_entry js (longer_of sec ex)"
  by (simp add: final_entry_def)

lemma final_entry_other:
  "section_id ex \<notin> section_id ` set js \<Longrightarrow> final_entry js ex = ex"
proof (induction js arbitrary: ex)
  case Nil
  show ?case by (simp add: final_entry_def)
next
  case (Cons s js)
  then have "longer_of s ex = ex" by (auto simp: longer_of_def)
  with Cons show ?case by (simp add: final_entry_Cons)
qed

lemma final_entry_match:
  "distinct (map section_id js) \<Longrightarrow> sec \<in> set js \<Longrightarrow> section_id ex = section_id sec \<Longrightarrow>
   final_entry js ex = longer_of sec ex"
proof (induction js arbitrary: ex)
  case Nil
  then show ?case by simp
next
  case (Cons s js)
  show ?case
  proof (cases "s = sec")
    case True
    with Cons.prems have "section_id (longer_of sec ex) \<notin> section_id ` set js"
      by (auto simp: longer_of_id)
    from final_entry_other[OF this] True show ?thesis by (simp add: final_entry_Cons)
  next
    case False
    with Cons.prems have mem: "sec \<in> set js" and d: "distinct (map section_id js)"
      and ne: "section_id s \<noteq> section_id sec" by auto
    from ne Cons.prems(3) have "longer_of s ex = ex" by (simp add: longer_of_def)
    with Cons.IH[OF d mem Cons.prems(3)] show ?thesis by (simp add: final_entry_Cons)
  qed
qed

text \<open>
  The loop of the merge, from any point on: \<open>xs\<close> is what has become of the existing
  entries and \<open>app\<close> what has been appended so far.
\<close>

lemma merge_loop_eq:
  "distinct (map section_id st) \<Longrightarrow> map section_id xs = map section_id st \<Longrightarrow>
   merge_loop (section_id ` set st) (xs @ app) js =
     map (final_entry js) xs @ app @ filter (\<lambda>s. section_id s \<notin> section_id ` set st) js"
proof (induction js arbitrary: xs app)
  case Nil
  show ?case by (simp add: final_entry_def)
next
  case (Cons sec js)
  have ids: "section_id ` set xs = section_id ` set st"
    using Cons.prems(2) by (metis list.set_map)
  have dx: "distinct (map section_id xs)" using Cons.prems by simp
  show ?case
  proof (cases "section_id sec \<in> section_id ` set st")
    case False
    have "\<forall>x \<in> set xs. section_id x \<noteq> section_id sec"
      using False ids by (metis imageI)
    then have "\<forall>x \<in> set xs. longer_of sec x = x"
      by (simp add: longer_of_def)
    then have same: "map (final_entry (sec # js)) xs = map (final_entry js) xs"
      by (simp add: final_entry_Cons)
    from False have "merge_loop (section_id ` set st) (xs @ app) (sec # js)
        = merge_loop (section_id ` set st) (xs @ (app @ [sec])) js" by simp
    also have "\<dots> = map (final_entry js) xs @ (app @ [sec]) @
        filter (\<lambda>s. section_id s \<notin> section_id ` set st) js"
      by (rule Cons.IH[OF Cons.prems])
    finally show ?thesis using False same by simp
  next
    case True
    then have mem: "section_id sec \<in> section_id ` set xs" using ids by simp
    have r: "replace_first sec (xs @ app) = map (longer_of sec) xs @ app"
      using replace_first_append[OF mem] replace_first_distinct[OF dx] by simp
    have ids': "map section_id (map (longer_of sec) xs) = map section_id st"
      using Cons.prems(2) by (simp add: comp_def longer_of_id)
    from True have "merge_loop (section_id ` set st) (xs @ app) (sec # js)
        = merge_loop (section_id ` set st) (map (longer_of sec) xs @ app) js" by (simp add: r)
    also have "\<dots> = map (final_entry js) (map (longer_of sec) xs) @ app @
        filter (\<lambda>s. section_id s \<notin> section_id ` set st) js"
      by (rule Cons.IH[OF Cons.prems(1) ids'])
    finally show ?thesis using True by (simp add: final_entry_Cons comp_def)
  qed
qed

text \<open>
  The merged list: the existing entries, each after the rendered sections have been
  merged into it, followed by the rendered sections with a new id, in their order.
\<close>

lemma merge_sections_eq:
  assumes "distinct (map section_id secs)"
  shows "merge_sections secs js =
     map (final_entry js) secs @ filter (\<lambda>s. section_id s \<notin> section_id ` set secs) js"
proof (cases "js = []")
  case True
  then show ?thesis by (simp add: merge_sections_def final_entry_Nil)
next
  case False
  then show ?thesis
    using merge_loop_eq[OF assms refl, of "[]" js] by (simp add: merge_sections_def)
qed

section \<open>Ids of one pass are distinct\<close>














section \<open>Evaluating the example inputs\<close>

lemmas page_defs =
  page_lib_def test_lib_def example_url_def leaf_def blank_body_def blank_page_def
  plain_body_def plain_page_def empty_nav_def home_nav_def alpha_section_def
  beta_section_def landmarks_page_def long_section_def long_page_def text_section_def
  text_page_def about_anchor_def link_section_def

lemmas extract_defs =
  extract_sections_def SECTION_SELECTORS_def css_first_def extract_section_content_def
  nonempty_texts_def determine_section_type_def attributes_get_def lower_attr_def any_in_def
  lower_def lower_char_def SECTION_TYPE_MAP_def empty_content_def Let_def


section \<open>Claims about the merge\<close>





text \<open>
  The claim in its own words follows: a rendered section with a new id stands after
  the existing entries, and an existing entry that shares its id with a rendered
  section holds the one with the strictly longer text.
\<close>

lemma merge_sections_pointwise:
  assumes "distinct (map section_id secs)" and "distinct (map section_id js_sections)"
    and "sec \<in> set js_sections"
  shows "(section_id sec \<notin> section_id ` set secs \<longrightarrow>
            sec \<in> set (drop (length secs) (merge_sections secs js_sections))) \<and>
         (\<forall>i < length secs. section_id (secs ! i) = section_id sec \<longrightarrow>
            merge_sections secs js_sections ! i =
              (if length (content_text (content sec)) > length (content_text (content (secs ! i)))
               then sec else secs ! i))"
proof -
  have eq: "merge_sections secs js_sections =
     map (final_entry js_sections) secs @
     filter (\<lambda>s. section_id s \<notin> section_id ` set secs) js_sections"
    by (rule merge_sections_eq[OF assms(1)])
  have a: "section_id sec \<notin> section_id ` set secs \<longrightarrow>
            sec \<in> set (drop (length secs) (merge_sections secs js_sections))"
    using assms(3) by (simp add: eq)
  have b: "\<forall>i < length secs. section_id (secs ! i) = section_id sec \<longrightarrow>
            merge_sections secs js_sections ! i =
              (if length (content_text (content sec)) > length (content_text (content (secs ! i)))
               then sec else secs ! i)"
  proof (intro allI impI)
    fix i assume i: "i < length secs" and id: "section_id (secs ! i) = section_id sec"
    have "merge_sections secs js_sections ! i = final_entry js_sections (secs ! i)"
      using i by (simp add: eq nth_append)
    also have "\<dots> = longer_of sec (secs ! i)"
      by (rule final_entry_match[OF assms(2,3) id])
    finally show "merge_sections secs js_sections ! i =
              (if length (content_text (content sec)) > length (content_text (content (secs ! i)))
               then sec else secs ! i)"
      using id by (simp add: longer_of_def)
  qed
  from a b show ?thesis by blast
qed

section \<open>Claims about section extraction\<close>

text \<open>
  Claim C4. Every section that \<open>extract_sections\<close> returns stores at most 1003
  characters of markup. It comes from an element of the scan (a landmark match or the
  body) such that \<open>truncated\<close> is set exactly if that element's serialized markup has
  more than 1000 characters, in which case \<open>rawHtml\<close> is its first 1000 characters
  followed by three dots, and otherwise the markup itself.
\<close>

theorem raw_html_truncation:
  assumes "extract_sections L tree u = Inr secs"
  shows "\<forall>s \<in> set secs.
           length (rawHtml s) \<le> 1003 \<and>
           (\<exists>e \<in> set (concat (map (css tree) SECTION_SELECTORS)) \<union> set (css tree ''body'').
              truncated s = (length (or_empty (html e)) > 1000) \<and>
              rawHtml s = (if length (or_empty (html e)) > 1000
                           then take 1000 (or_empty (html e)) @ ''...''
                           else or_empty (html e)))"
proof
  fix s assume s: "s \<in> set secs"
  let ?E = "set (concat (map (css tree) SECTION_SELECTORS)) \<union> set (css tree ''body'')"
  have "\<exists>e \<in> ?E.
          truncated s = (length (or_empty (html e)) > 1000) \<and>
          rawHtml s = (if length (or_empty (html e)) > 1000
                       then take 1000 (or_empty (html e)) @ ''...''
                       else or_empty (html e))"
  proof (cases "scan_selectors L u tree SECTION_SELECTORS ([], Map.empty)")
    case (Inl err)
    with assms show ?thesis by (simp add: extract_sections_def)
  next
    case (Inr acc)
    obtain secs0 cnt where acc: "acc = (secs0, cnt)" by (cases acc)
    show ?thesis
    proof (cases "secs0 = []")
      case True
      with assms Inr acc s obtain body where b: "css_first tree ''body'' = Some body"
        and eq: "s = body_section L u body"
        by (auto simp: extract_sections_def split: option.splits)
      from b have "body \<in> set (css tree ''body'')"
        by (auto simp: css_first_def split: list.splits)
      then show ?thesis using eq by (auto simp: body_section_simps)
    next
      case False
      with assms Inr acc have secs: "secs = secs0" by (simp add: extract_sections_def)
      from Inr acc have "scan_elements L u (concat (map (css tree) SECTION_SELECTORS))
          ([], Map.empty) = Inr (secs0, cnt)"
        by (simp add: scan_selectors_concat)
      from scan_elements_emits[OF this] s secs
      obtain e st n where "e \<in> set (concat (map (css tree) SECTION_SELECTORS))"
        and "s = make_section L u e (extract_section_content L e u) st n"
        by (auto simp del: set_concat)
      then show ?thesis by (auto simp: make_section_simps)
    qed
  qed
  then obtain e where e: "e \<in> ?E"
    and t: "truncated s = (length (or_empty (html e)) > 1000)"
    and r: "rawHtml s = (if length (or_empty (html e)) > 1000
                         then take 1000 (or_empty (html e)) @ ''...''
                         else or_empty (html e))"
    by blast
  have "length (rawHtml s) \<le> 1003" using r by (simp split: if_splits)
  with e t r show "length (rawHtml s) \<le> 1003 \<and>
           (\<exists>e \<in> ?E.
              truncated s = (length (or_empty (html e)) > 1000) \<and>
              rawHtml s = (if length (or_empty (html e)) > 1000
                           then take 1000 (or_empty (html e)) @ ''...''
                           else or_empty (html e)))"
    by blast
qed

text \<open>
  A section whose markup has 1219 characters is stored as 1000 characters and three
  dots, with \<open>truncated\<close> set.
\<close>

theorem raw_html_truncation_witness:
  "extract_sections (page_lib long_page) long_page example_url =
     Inr [make_section (page_lib long_page) example_url long_section
            (extract_section_content (page_lib long_page) long_section example_url) ''section'' 0] \<and>
   truncated (make_section (page_lib long_page) example_url long_section
            (extract_section_content (page_lib long_page) long_section example_url) ''section'' 0) \<and>
   length (rawHtml (make_section (page_lib long_page) example_url long_section
            (extract_section_content (page_lib long_page) long_section example_url) ''section'' 0))
     = 1003"
proof -
  have h: "extract_sections (page_lib long_page) long_page example_url =
     Inr [make_section (page_lib long_page) example_url long_section
            (extract_section_content (page_lib long_page) long_section example_url) ''section'' 0]"
    by (simp add: extract_defs page_defs)
  have m: "or_empty (html long_section) = ''<section>'' @ replicate 1200 CHR ''x'' @ ''</section>''"
    by (simp add: long_section_def leaf_def)
  show ?thesis
    using h raw_html_truncation[OF h] by (simp add: make_section_simps m)
qed

text \<open>
  Claim C5. Every section that the primary landmark scan emits has some text, a
  heading or a link; an element whose extracted content has none of them leaves the
  scan exactly as if it were not in the document (no section, no counter changes). The
  whole-body fallback has no such filter: on a page with an empty body it emits the
  section \<open>body-0\<close> with empty content.
\<close>

theorem primary_scan_skips_empty_content:
  "(scan_selectors L u tree SECTION_SELECTORS ([], Map.empty) = Inr (secs, cnt) \<longrightarrow>
      (\<forall>s \<in> set secs. \<not> empty_content (content s))) \<and>
   (empty_content (extract_section_content L e u) \<longrightarrow>
      scan_elements L u (es1 @ e # es2) acc = scan_elements L u (es1 @ es2) acc) \<and>
   extract_sections L blank_page u = Inr [body_section L u blank_body] \<and>
   empty_content (content (body_section L u blank_body))"
proof -
  have a: "scan_selectors L u tree SECTION_SELECTORS ([], Map.empty) = Inr (secs, cnt) \<longrightarrow>
      (\<forall>s \<in> set secs. \<not> empty_content (content s))"
  proof
    assume "scan_selectors L u tree SECTION_SELECTORS ([], Map.empty) = Inr (secs, cnt)"
    then have "scan_elements L u (concat (map (css tree) SECTION_SELECTORS)) ([], Map.empty)
        = Inr (secs, cnt)"
      by (simp add: scan_selectors_concat)
    from scan_elements_emits[OF this]
    show "\<forall>s \<in> set secs. \<not> empty_content (content s)"
      by (auto simp: make_section_simps simp del: set_concat)
  qed
  have b: "empty_content (extract_section_content L e u) \<longrightarrow>
      scan_elements L u (es1 @ e # es2) acc = scan_elements L u (es1 @ es2) acc"
  proof
    assume emp: "empty_content (extract_section_content L e u)"
    have skip: "scan_elements L u (e # es2) acc' = scan_elements L u es2 acc'" for acc'
      using emp by (cases acc') (simp add: empty_content_def Let_def)
    show "scan_elements L u (es1 @ e # es2) acc = scan_elements L u (es1 @ es2) acc"
      by (simp add: scan_elements_append skip split: sum.splits)
  qed
  have c: "extract_sections L blank_page u = Inr [body_section L u blank_body]"
    by (simp add: extract_sections_def SECTION_SELECTORS_def blank_page_def css_first_def)
  have d: "empty_content (content (body_section L u blank_body))"
    by (simp add: body_section_simps empty_content_def extract_section_content_def
        blank_body_def leaf_def nonempty_texts_def Let_def)
  from a b c d show ?thesis by blast
qed

text \<open>
  On the page with an empty and a non-empty \<open>nav\<close> and two sections, the empty
  \<open>nav\<close> is skipped and the three other landmarks are emitted.
\<close>

theorem primary_scan_skips_empty_content_witness:
  "empty_content (extract_section_content (page_lib landmarks_page) empty_nav example_url) \<and>
   scan_elements (page_lib landmarks_page) example_url ([] @ empty_nav # [home_nav]) ([], Map.empty)
     = scan_elements (page_lib landmarks_page) example_url ([] @ [home_nav]) ([], Map.empty) \<and>
   (\<exists>cnt. scan_selectors (page_lib landmarks_page) example_url landmarks_page SECTION_SELECTORS
            ([], Map.empty) =
      Inr ([make_section (page_lib landmarks_page) example_url home_nav
              (extract_section_content (page_lib landmarks_page) home_nav example_url) ''nav'' 0,
            make_section (page_lib landmarks_page) example_url alpha_section
              (extract_section_content (page_lib landmarks_page) alpha_section example_url)
              ''section'' 0,
            make_section (page_lib landmarks_page) example_url beta_section
              (extract_section_content (page_lib landmarks_page) beta_section example_url)
              ''section'' 1], cnt)) \<and>
   \<not> empty_content (extract_section_content (page_lib landmarks_page) home_nav example_url)"
proof -
  have e: "empty_content (extract_section_content (page_lib landmarks_page) empty_nav example_url)"
    by (simp add: extract_defs page_defs)
  have s: "\<exists>cnt. scan_selectors (page_lib landmarks_page) example_url landmarks_page
      SECTION_SELECTORS ([], Map.empty) =
      Inr ([make_section (page_lib landmarks_page) example_url home_nav
              (extract_section_content (page_lib landmarks_page) home_nav example_url) ''nav'' 0,
            make_section (page_lib landmarks_page) example_url alpha_section
              (extract_section_content (page_lib landmarks_page) alpha_section example_url)
              ''section'' 0,
            make_section (page_lib landmarks_page) example_url beta_section
              (extract_section_content (page_lib landmarks_page) beta_section example_url)
              ''section'' 1], cnt)"
    by (simp add: extract_defs page_defs)
  have n: "\<not> empty_content (extract_section_content (page_lib landmarks_page) home_nav example_url)"
    by (simp add: extract_defs page_defs)
  show ?thesis
    using e s n
      primary_scan_skips_empty_content
        [of "page_lib landmarks_page" example_url landmarks_page _ _ empty_nav "[]"
            "[home_nav]" "([], Map.empty)"]
    by blast
qed

text \<open>
  Claim C6, as the code has it. The claim as stated fails on the whole-body fallback,
  whose section has the fixed id \<open>body-0\<close> and the type \<open>unknown\<close>.
\<close>

theorem body_fallback_id_counterexample:
  "extract_sections (page_lib plain_page) plain_page example_url =
     Inr [body_section (page_lib plain_page) example_url plain_body] \<and>
   section_id (body_section (page_lib plain_page) example_url plain_body) = ''body-0'' \<and>
   section_type (body_section (page_lib plain_page) example_url plain_body) = ''unknown'' \<and>
   ''body-0'' \<noteq> ''unknown'' @ ''-'' @ str_nat 0 \<and>
   \<not> ordinal_ids [body_section (page_lib plain_page) example_url plain_body]"
proof -
  have "extract_sections (page_lib plain_page) plain_page example_url =
     Inr [body_section (page_lib plain_page) example_url plain_body]"
    by (simp add: extract_sections_def SECTION_SELECTORS_def plain_page_def css_first_def)
  moreover have "\<not> ordinal_ids [body_section (page_lib plain_page) example_url plain_body]"
    by (simp add: ordinal_ids_def body_section_simps)
  ultimately show ?thesis by (simp add: body_section_simps)
qed

text \<open>
  Claim C6, amended. Whenever \<open>extract_sections\<close> returns, either its result is the
  result of the primary landmark scan, in which every id is the section's type, a
  hyphen, and the number of sections of that type emitted before it in the scan
  (a per-type counter that starts at 0 and follows the scan order); or the primary scan
  emitted nothing and the result is the single fallback section made from the body, with
  id \<open>body-0\<close> and type \<open>unknown\<close>.
\<close>

theorem section_ids_ordinal_in_primary_scan:
  assumes "extract_sections L tree u = Inr secs"
  shows "((\<exists>cnt. scan_selectors L u tree SECTION_SELECTORS ([], Map.empty) = Inr (secs, cnt)) \<and>
          ordinal_ids secs) \<or>
         ((\<exists>cnt. scan_selectors L u tree SECTION_SELECTORS ([], Map.empty) = Inr ([], cnt)) \<and>
          (\<exists>body. css_first tree ''body'' = Some body \<and> secs = [body_section L u body]) \<and>
          map section_id secs = [''body-0''] \<and> map section_type secs = [''unknown''])"
proof (cases "scan_selectors L u tree SECTION_SELECTORS ([], Map.empty)")
  case (Inl err)
  with assms show ?thesis by (simp add: extract_sections_def)
next
  case (Inr acc)
  obtain secs0 cnt where acc: "acc = (secs0, cnt)" by (cases acc)
  have scan: "scan_elements L u (concat (map (css tree) SECTION_SELECTORS)) ([], Map.empty)
      = Inr (secs0, cnt)"
    using Inr acc by (simp add: scan_selectors_concat)
  have init: "counts_match Map.empty []" "ordinal_ids []"
    by (simp_all add: counts_match_def count_type_def ordinal_ids_def)
  have ord: "ordinal_ids secs0"
    using scan_elements_ordinals[OF scan init] by simp
  show ?thesis
  proof (cases "secs = secs0")
    case True
    with Inr acc ord show ?thesis by simp
  next
    case False
    with assms Inr acc obtain body where "secs0 = []" "css_first tree ''body'' = Some body"
      "secs = [body_section L u body]"
      by (auto simp: extract_sections_def split: if_splits option.splits)
    with Inr acc show ?thesis by (simp add: body_section_simps)
  qed
qed

text \<open>
  On the page with two \<open>nav\<close> elements and two sections the ids are \<open>nav-0\<close>,
  \<open>section-0\<close> and \<open>section-1\<close>.
\<close>

theorem section_ids_ordinal_in_primary_scan_witness:
  "extract_sections (page_lib landmarks_page) landmarks_page example_url =
     Inr [make_section (page_lib landmarks_page) example_url home_nav
            (extract_section_content (page_lib landmarks_page) home_nav example_url) ''nav'' 0,
          make_section (page_lib landmarks_page) example_url alpha_section
            (extract_section_content (page_lib landmarks_page) alpha_section example_url)
            ''section'' 0,
          make_section (page_lib landmarks_page) example_url beta_section
            (extract_section_content (page_lib landmarks_page) beta_section example_url)
            ''section'' 1] \<and>
   ordinal_ids
     [make_section (page_lib landmarks_page) example_url home_nav
            (extract_section_content (page_lib landmarks_page) home_nav example_url) ''nav'' 0,
          make_section (page_lib landmarks_page) example_url alpha_section
            (extract_section_content (page_lib landmarks_page) alpha_section example_url)
            ''section'' 0,
          make_section (page_lib landmarks_page) example_url beta_section
            (extract_section_content (page_lib landmarks_page) beta_section example_url)
            ''section'' 1] \<and>
   map section_id
     [make_section (page_lib landmarks_page) example_url home_nav
            (extract_section_content (page_lib landmarks_page) home_nav example_url) ''nav'' 0,
          make_section (page_lib landmarks_page) example_url alpha_section
            (extract_section_content (page_lib landmarks_page) alpha_section example_url)
            ''section'' 0,
          make_section (page_lib landmarks_page) example_url beta_section
            (extract_section_content (page_lib landmarks_page) beta_section example_url)
            ''section'' 1]
     = [''nav-0'', ''section-0'', ''section-1'']"
proof -
  have h: "extract_sections (page_lib landmarks_page) landmarks_page example_url =
     Inr [make_section (page_lib landmarks_page) example_url home_nav
            (extract_section_content (page_lib landmarks_page) home_nav example_url) ''nav'' 0,
          make_section (page_lib landmarks_page) example_url alpha_section
            (extract_section_content (page_lib landmarks_page) alpha_section example_url)
            ''section'' 0,
          make_section (page_lib landmarks_page) example_url beta_section
            (extract_section_content (page_lib landmarks_page) beta_section example_url)
            ''section'' 1]"
    by (simp add: extract_defs page_defs)
  show ?thesis
    using h section_ids_ordinal_in_primary_scan[OF h]
    by (simp add: make_section_simps str_nat_0 str_nat_1)
qed

section \<open>Claims about links\<close>

text \<open>Whether a URL is absolute is decided by its part up to the first colon.\<close>

lemma is_alpha_colon: "\<not> is_alpha CHR '':''"
  by (simp add: is_alpha_def)

lemma scheme_then_colon_append:
  "CHR '':'' \<in> set p \<Longrightarrow> scheme_then_colon (p @ q) = scheme_then_colon p"
  by (induction p) auto

lemma is_absolute_url_append:
  assumes "CHR '':'' \<in> set p"
  shows "is_absolute_url (p @ q) = is_absolute_url p"
proof (cases p)
  case Nil
  with assms show ?thesis by simp
next
  case (Cons c cs)
  show ?thesis
  proof (cases "c = CHR '':''")
    case True
    with Cons show ?thesis by (simp add: is_absolute_url_def is_alpha_colon)
  next
    case False
    with assms Cons have "CHR '':'' \<in> set cs" by simp
    from scheme_then_colon_append[OF this] Cons show ?thesis
      by (simp add: is_absolute_url_def)
  qed
qed

lemma http_prefix_absolute:
  assumes "startswith h [''http://'', ''https://'']"
  shows "is_absolute_url h"
proof -
  have a: "is_absolute_url ''http://''" and b: "is_absolute_url ''https://''"
    by (simp_all add: is_absolute_url_def is_alpha_def is_scheme_char_def)
  from assms consider "prefix ''http://'' h" | "prefix ''https://'' h"
    by (auto simp: startswith_def)
  then show ?thesis
  proof cases
    case 1
    then obtain r where "h = ''http://'' @ r" by (auto elim: prefixE)
    then show ?thesis using is_absolute_url_append[of "''http://''" r] a by simp
  next
    case 2
    then obtain r where "h = ''https://'' @ r" by (auto elim: prefixE)
    then show ?thesis using is_absolute_url_append[of "''https://''" r] b by simp
  qed
qed

text \<open>
  What \<open>make_absolute_url\<close> returns for a non-empty href, case by case, and when the
  result is absolute.
\<close>

lemma slashes_not_http:
  "prefix ''//'' h \<Longrightarrow> \<not> prefix ''http://'' h \<and> \<not> prefix ''https://'' h"
  by (cases h) auto

lemma make_absolute_url_cases:
  assumes "h \<noteq> []"
  shows "make_absolute_url L h base_url =
     (if startswith h [''http://'', ''https://''] then h
      else if startswith h [''//''] then urlparse_scheme L base_url @ '':'' @ h
      else urljoin L base_url h)"
  using assms slashes_not_http[of h] by (auto simp: make_absolute_url_def startswith_def)

lemma make_absolute_url_absolute:
  assumes "h \<noteq> []"
  shows "is_absolute_url (make_absolute_url L h base_url) =
     (startswith h [''http://'', ''https://''] \<or>
      (startswith h [''//''] \<and> is_absolute_url (urlparse_scheme L base_url @ '':'')) \<or>
      (\<not> startswith h [''http://'', ''https://'', ''//''] \<and>
       is_absolute_url (urljoin L base_url h)))"
proof (cases "startswith h [''http://'', ''https://'']")
  case True
  then show ?thesis
    using http_prefix_absolute[OF True] by (simp add: make_absolute_url_cases[OF assms])
next
  case nohttp: False
  show ?thesis
  proof (cases "startswith h [''//'']")
    case True
    have "is_absolute_url ((urlparse_scheme L base_url @ '':'') @ h)
        = is_absolute_url (urlparse_scheme L base_url @ '':'')"
      by (rule is_absolute_url_append) simp
    with nohttp True show ?thesis
      by (simp add: make_absolute_url_cases[OF assms]) (auto simp: startswith_def)
  next
    case False
    with nohttp show ?thesis
      by (simp add: make_absolute_url_cases[OF assms]) (auto simp: startswith_def)
  qed
qed

text \<open>
  Claim C10, as the code has it. The claim as stated fails for a page addressed by a
  \<open>data:\<close> URL, which the render pass loads: \<open>urljoin\<close> has nothing to resolve the
  href \<open>/about\<close> against and returns it unchanged, so the emitted link's \<open>href\<close> field
  is the relative \<open>/about\<close>.
\<close>

theorem link_href_relative_counterexample:
  "links (extract_section_content data_url_lib link_section data_url) =
     [\<lparr>link_text = ''/about'', link_href = ''/about''\<rparr>] \<and>
   \<not> is_absolute_url ''/about''"
  by (simp add: extract_section_content_def nonempty_texts_def link_items_def
      make_absolute_url_def startswith_def attributes_get_def Let_def
      link_section_def about_anchor_def data_url_lib_def data_url_def
      is_absolute_url_def is_alpha_def)

text \<open>
  Claim C10, amended. Every link that \<open>extract_section_content\<close> emits has a
  non-empty text. It comes from an anchor of the element whose \<open>href\<close> is a non-empty
  string that starts with none of the filtered prefixes; its text is the anchor's trimmed
  text, or that \<open>href\<close> when the trimmed text is empty. Its \<open>href\<close> field is the
  anchor's \<open>href\<close> itself when that starts with \<open>http://\<close> or \<open>https://\<close>, the
  scheme of the page URL, a colon and the \<open>href\<close> when it starts with \<open>//\<close>, and
  \<open>urljoin\<close> of the page URL and the \<open>href\<close> otherwise. The field is an absolute URL
  exactly in these cases: the \<open>href\<close> starts with \<open>http://\<close> or \<open>https://\<close>; it
  starts with \<open>//\<close> and the page URL has a scheme; or it starts with neither and what
  \<open>urljoin\<close> returns is absolute.
\<close>

theorem link_items_text_and_href:
  "\<forall>l \<in> set (links (extract_section_content L e base_url)).
     link_text l \<noteq> [] \<and>
     (\<exists>a \<in> set (css e ''a[href]''). \<exists>h.
        attributes_get a ''href'' '''' = Some h \<and> h \<noteq> [] \<and>
        \<not> startswith h [''#'', ''javascript:'', ''mailto:'', ''tel:''] \<and>
        link_text l = (if text_strip a = [] then h else text_strip a) \<and>
        link_href l =
          (if startswith h [''http://'', ''https://''] then h
           else if startswith h [''//''] then urlparse_scheme L base_url @ '':'' @ h
           else urljoin L base_url h) \<and>
        is_absolute_url (link_href l) =
          (startswith h [''http://'', ''https://''] \<or>
           (startswith h [''//''] \<and> is_absolute_url (urlparse_scheme L base_url @ '':'')) \<or>
           (\<not> startswith h [''http://'', ''https://'', ''//''] \<and>
            is_absolute_url (urljoin L base_url h))))"
proof
  fix l assume "l \<in> set (links (extract_section_content L e base_url))"
  then have "l \<in> set (concat (map (link_items L base_url) (css e ''a[href]'')))"
    by (auto simp: extract_section_content_def Let_def dest: in_set_takeD)
  then obtain a where a: "a \<in> set (css e ''a[href]'')" and l: "l \<in> set (link_items L base_url a)"
    by auto
  from l obtain h where h: "attributes_get a ''href'' '''' = Some h" "h \<noteq> []"
      "\<not> startswith h [''#'', ''javascript:'', ''mailto:'', ''tel:'']"
      and eq: "l = \<lparr>link_text = (if text_strip a \<noteq> [] then text_strip a else h),
               link_href = make_absolute_url L h base_url\<rparr>"
    by (cases "attributes_get a ''href'' ''''") (auto simp: link_items_def Let_def split: if_splits)
  have t1: "link_text l \<noteq> []" using eq h(2) by simp
  have t2: "link_text l = (if text_strip a = [] then h else text_strip a)" using eq by simp
  have hr: "link_href l = make_absolute_url L h base_url" using eq by simp
  have t3: "link_href l =
          (if startswith h [''http://'', ''https://''] then h
           else if startswith h [''//''] then urlparse_scheme L base_url @ '':'' @ h
           else urljoin L base_url h)"
    unfolding hr by (rule make_absolute_url_cases[OF h(2)])
  have t4: "is_absolute_url (link_href l) =
          (startswith h [''http://'', ''https://''] \<or>
           (startswith h [''//''] \<and> is_absolute_url (urlparse_scheme L base_url @ '':'')) \<or>
           (\<not> startswith h [''http://'', ''https://'', ''//''] \<and>
            is_absolute_url (urljoin L base_url h)))"
    unfolding hr by (rule make_absolute_url_absolute[OF h(2)])
  from a h t1 t2 t3 t4
  show "link_text l \<noteq> [] \<and>
     (\<exists>a \<in> set (css e ''a[href]''). \<exists>h.
        attributes_get a ''href'' '''' = Some h \<and> h \<noteq> [] \<and>
        \<not> startswith h [''#'', ''javascript:'', ''mailto:'', ''tel:''] \<and>
        link_text l = (if text_strip a = [] then h else text_strip a) \<and>
        link_href l =
          (if startswith h [''http://'', ''https://''] then h
           else if startswith h [''//''] then urlparse_scheme L base_url @ '':'' @ h
           else urljoin L base_url h) \<and>
        is_absolute_url (link_href l) =
          (startswith h [''http://'', ''https://''] \<or>
           (startswith h [''//''] \<and> is_absolute_url (urlparse_scheme L base_url @ '':'')) \<or>
           (\<not> startswith h [''http://'', ''https://'', ''//''] \<and>
            is_absolute_url (urljoin L base_url h))))"
    by blast
qed

text \<open>
  An anchor without text on a page with an \<open>https\<close> URL: the link's text is its
  \<open>href\<close>, and its \<open>href\<close> field is absolute.
\<close>

theorem link_items_text_and_href_witness:
  "links (extract_section_content (page_lib link_section) link_section example_url) =
     [\<lparr>link_text = ''/about'', link_href = ''https://example.com/about''\<rparr>] \<and>
   link_text \<lparr>link_text = ''/about'', link_href = ''https://example.com/about''\<rparr> \<noteq> [] \<and>
   is_absolute_url (urljoin (page_lib link_section) example_url ''/about'') \<and>
   is_absolute_url ''https://example.com/about''"
proof -
  have h: "links (extract_section_content (page_lib link_section) link_section example_url) =
     [\<lparr>link_text = ''/about'', link_href = ''https://example.com/about''\<rparr>]"
    by (simp add: extract_defs page_defs link_items_def make_absolute_url_def startswith_def)
  have u: "urljoin (page_lib link_section) example_url ''/about'' = ''https://example.com/about''"
    by (simp add: page_lib_def test_lib_def example_url_def)
  have abs: "is_absolute_url ''https://example.com/about''"
    by (simp add: is_absolute_url_def is_alpha_def is_scheme_char_def)
  show ?thesis
    using h u abs link_items_text_and_href[of "page_lib link_section" link_section example_url]
    by simp
qed

section \<open>Claims about classification\<close>

text \<open>
  When the attributes \<open>class\<close> and \<open>id\<close> are absent or carry a value, the type is the
  one the specification describes: the first keyword group that matches the lowercased
  class and id, joined by a space, and otherwise the base type of the tag.
\<close>

lemma determine_section_type_valued:
  assumes "attributes_get e ''class'' '''' = Some cls"
    and "attributes_get e ''id'' '''' = Some ident"
  shows "determine_section_type e c =
     Inr (classify_spec (if truthy (tag e) then lower (or_empty (tag e)) else '''')
            (lower cls @ '' '' @ lower ident))"
  using assms
  by (simp add: determine_section_type_def lower_attr_def classify_spec_def KEYWORD_GROUPS_def
      Let_def)

lemma pricing_table_is_pricing:
  "determine_section_type pricing_table_section c = Inr ''pricing''"
  by (simp add: determine_section_type_def pricing_table_section_def attributes_get_def
      lower_attr_def any_in_def lower_def lower_char_def SECTION_TYPE_MAP_def)

text \<open>
  Claim C7 fails on the code for a landmark whose \<open>class\<close> attribute has no value,
  as in \<open><section class>Plans</section>\<close>: the parser reports the value \<open>None\<close>,
  \<open>.lower()\<close> raises, and no type is determined. The exception leaves
  \<open>extract_sections\<close>, so the pass that scans such an element returns no section.
\<close>

theorem determine_section_type_valueless_class:
  "determine_section_type valueless_class_section c =
     Inl (Error (CHR 0x27 # ''NoneType'' @ CHR 0x27 # '' object has no attribute '' @
                 CHR 0x27 # ''lower'' @ [CHR 0x27])) \<and>
   scan_elements L u [valueless_class_section] ([], Map.empty) =
     Inl (Error (CHR 0x27 # ''NoneType'' @ CHR 0x27 # '' object has no attribute '' @
                 CHR 0x27 # ''lower'' @ [CHR 0x27]))"
  by (simp add: determine_section_type_def valueless_class_section_def attributes_get_def
      lower_attr_def extract_section_content_def nonempty_texts_def Let_def)

section \<open>Claims about the static pass\<close>

text \<open>
  Claim C1. The flag \<open>needs_js\<close> that \<open>static_scrape\<close> returns is true exactly if
  the fetch failed, or the visible body text that was measured has fewer than 500
  characters, or the pass returns no section, or every section it returns has empty
  text.
\<close>

theorem needs_render_iff:
  assumes "static_scrape L u = (metadata, secs, errs, html_content, needs_js)"
  shows "needs_js =
     (isl (fetch L u) \<or>
      (case body_text_length L u of Some n \<Rightarrow> n < 500 | None \<Rightarrow> False) \<or>
      secs = [] \<or>
      (\<forall>s \<in> set secs. content_text (content s) = []))"
proof (cases "fetch L u")
  case (Inl err)
  with assms show ?thesis
    by (cases err) (auto simp: static_scrape_def)
next
  case (Inr markup)
  show ?thesis
  proof (cases "static_parse L u markup")
    case (Inl e)
    with assms Inr show ?thesis by (auto simp: static_scrape_def)
  next
    case ok: (Inr r)
    obtain m ss nj where r: "r = (m, ss, nj)" by (cases r)
    from assms Inr ok r have eqs: "secs = ss" "needs_js = nj"
      by (simp_all add: static_scrape_def)
    from ok r obtain tree where tree: "HTMLParser L markup = Inr tree"
      and nj: "nj = (if ss = [] \<or> list_all (\<lambda>s. content_text (content s) = []) ss then True
                     else (if get_text_content_length (remove_noise L tree) < 500 then True
                           else False))"
      by (auto simp: static_parse_def Let_def split: sum.splits)
    have len: "body_text_length L u = Some (get_text_content_length (remove_noise L tree))"
      using Inr tree by (simp add: body_text_length_def)
    show ?thesis
      unfolding eqs nj len using Inr by (auto simp: list_all_iff)
  qed
qed

text \<open>
  The example of the specification: a body text of 600 characters and one section
  with text give \<open>needs_js = False\<close>.
\<close>

theorem needs_render_iff_witness:
  "static_scrape (page_lib text_page) example_url =
     (extract_metadata (page_lib text_page) text_page example_url,
      [make_section (page_lib text_page) example_url text_section
         (extract_section_content (page_lib text_page) text_section example_url) ''section'' 0],
      [], or_empty (html text_page), False) \<and>
   body_text_length (page_lib text_page) example_url = Some 600 \<and>
   content_text (content (make_section (page_lib text_page) example_url text_section
         (extract_section_content (page_lib text_page) text_section example_url) ''section'' 0))
     = replicate 500 CHR ''a''"
proof -
  have rn: "remove_noise (page_lib text_page) text_page = text_page"
    by (simp add: remove_noise_def NOISE_SELECTORS_def page_lib_def test_lib_def)
  have ex: "extract_sections (page_lib text_page) text_page example_url =
     Inr [make_section (page_lib text_page) example_url text_section
         (extract_section_content (page_lib text_page) text_section example_url) ''section'' 0]"
    by (simp add: extract_defs page_defs)
  have tl: "get_text_content_length text_page = 600"
    by (simp add: get_text_content_length_def css_first_def text_page_def leaf_def)
  have ct: "content_text (extract_section_content (page_lib text_page) text_section example_url)
      = replicate 500 CHR ''a''"
    by (simp add: extract_defs page_defs)
  have fe: "fetch (page_lib text_page) example_url = Inr (or_empty (html text_page))"
    and pa: "HTMLParser (page_lib text_page) (or_empty (html text_page)) = Inr text_page"
    by (simp_all add: page_lib_def test_lib_def)
  have h: "static_scrape (page_lib text_page) example_url =
     (extract_metadata (page_lib text_page) text_page example_url,
      [make_section (page_lib text_page) example_url text_section
         (extract_section_content (page_lib text_page) text_section example_url) ''section'' 0],
      [], or_empty (html text_page), False)"
    by (simp add: static_scrape_def static_parse_def fe pa rn ex tl make_section_simps ct)
  have b: "body_text_length (page_lib text_page) example_url = Some 600"
    by (simp add: body_text_length_def fe pa rn tl)
  show ?thesis
    using h b needs_render_iff[OF h] by (simp add: make_section_simps ct)
qed

text \<open>
  Claim C3 fails on the code in the static pass: the handlers of \<open>static_scrape\<close>
  store \<open>str(e)\<close> whole, for a failed fetch and for a failed parse alike, so the
  message is as long as the exception's text.
\<close>

theorem static_error_message_not_truncated:
  "map message (static_errors (static_scrape (test_lib (Inl (FetchException msg)) parsed) u))
     = [msg] \<and>
   map message (static_errors (static_scrape (test_lib (Inr markup) (Inl (Error msg))) u))
     = [msg]"
  by (simp add: static_scrape_def static_parse_def static_errors_def test_lib_def)

section \<open>Claims about the render pass\<close>

text \<open>
  Every message that the render pass records is a fixed prefix of at most 19
  characters followed by at most 50 characters of the exception's text.
\<close>

lemma error_item_bounded: "length pre \<le> 19 \<Longrightarrow> bounded_message (error_item pre e ph)"
  by (simp add: bounded_message_def error_item_def)

lemma click_tabs_loop_bounded:
  "click_tabs_loop B sels (p, i, errs) = (p', i', errs') \<Longrightarrow>
   list_all bounded_message errs \<Longrightarrow> list_all bounded_message errs'"
proof (induction sels arbitrary: p i errs)
  case Nil
  then show ?case by simp
next
  case (Cons sel sels)
  obtain r p1 where q: "query_selector_all B p sel = (r, p1)"
    by (cases "query_selector_all B p sel")
  show ?case
  proof (cases r)
    case (Inl e)
    with Cons.prems(1) q have "click_tabs_loop B sels
        (p1, i, errs @ [error_item ''Tab click error: '' e ''interaction'']) = (p', i', errs')"
      by simp
    moreover have "list_all bounded_message
        (errs @ [error_item ''Tab click error: '' e ''interaction''])"
      using Cons.prems(2) by (simp add: error_item_bounded)
    ultimately show ?thesis by (rule Cons.IH)
  next
    case (Inr tabs)
    obtain p2 i2 where c: "click_tab_handles B sel (take 3 tabs) (p1, i) = (p2, i2)"
      by (cases "click_tab_handles B sel (take 3 tabs) (p1, i)")
    with Cons.prems(1) q Inr have "click_tabs_loop B sels (p2, i2, errs) = (p', i', errs')"
      by simp
    then show ?thesis using Cons.prems(2) by (rule Cons.IH)
  qed
qed

lemma click_tabs_bounded:
  "click_tabs B (p, i, errs) = (p', i', errs') \<Longrightarrow>
   list_all bounded_message errs \<Longrightarrow> list_all bounded_message errs'"
  unfolding click_tabs_def by (rule click_tabs_loop_bounded)

lemma click_load_more_errors:
  "click_load_more B (p, i, errs) = (p', i', errs') \<Longrightarrow> errs' = errs"
  by (auto simp: click_load_more_def split: prod.splits)

lemma perform_scrolls_bounded:
  "perform_scrolls B k (p, i, errs) = (p', i', errs') \<Longrightarrow>
   list_all bounded_message errs \<Longrightarrow> list_all bounded_message errs'"
  by (auto simp: perform_scrolls_def error_item_bounded split: prod.splits option.splits)

lemma js_parse_bounded:
  "js_parse L u em markup (m, secs, errs) = (m', secs', errs') \<Longrightarrow>
   list_all bounded_message errs \<Longrightarrow> list_all bounded_message errs'"
  by (auto simp: js_parse_def Let_def error_item_bounded split: sum.splits)

lemma js_interact_bounded:
  "list_all bounded_message (js_errors_of (js_interact B L u em m secs p))"
proof -
  let ?i0 = "\<lparr>clicks = [], scrolls = 0, pages = [u]\<rparr>"
  obtain r p1 where w: "wait_for_timeout B p 1000 = (r, p1)"
    by (cases "wait_for_timeout B p 1000")
  show ?thesis
  proof (cases r)
    case (Inl e)
    with w show ?thesis
      by (simp add: js_interact_def js_errors_of_def error_item_bounded)
  next
    case (Inr x)
    obtain p2 i2 e2 where t: "click_tabs B (p1, ?i0, []) = (p2, i2, e2)"
      by (cases "click_tabs B (p1, ?i0, [])")
    obtain p3 i3 e3 where l: "click_load_more B (p2, i2, e2) = (p3, i3, e3)"
      by (cases "click_load_more B (p2, i2, e2)")
    obtain p4 i4 e4 where s: "perform_scrolls B 3 (p3, i3, e3) = (p4, i4, e4)"
      by (cases "perform_scrolls B 3 (p3, i3, e3)")
    obtain p5 i5 v where f: "follow_pagination B 3 (p4, i4) = (p5, i5, v)"
      by (cases "follow_pagination B 3 (p4, i4)")
    obtain c p6 where pc: "page_content B p5 = (c, p6)"
      by (cases "page_content B p5")
    have b2: "list_all bounded_message e2" using click_tabs_bounded[OF t] by simp
    have b3: "list_all bounded_message e3" using click_load_more_errors[OF l] b2 by simp
    have b4: "list_all bounded_message e4" using perform_scrolls_bounded[OF s b3] .
    show ?thesis
    proof (cases c)
      case (Inl e)
      with w Inr t l s f pc b4 show ?thesis
        by (simp add: js_interact_def js_errors_of_def error_item_bounded)
    next
      case markup: (Inr html_content)
      obtain m' secs' e5 where jp: "js_parse L u em html_content (m, secs, e4) = (m', secs', e5)"
        by (cases "js_parse L u em html_content (m, secs, e4)")
      have b5: "list_all bounded_message e5" using js_parse_bounded[OF jp b4] .
      from w Inr t l s f pc markup jp b5 show ?thesis
        by (cases "context_close B p6")
           (simp_all add: js_interact_def js_errors_of_def error_item_bounded)
    qed
  qed
qed

lemma js_scrape_messages_bounded:
  "list_all bounded_message (js_errors_of (js_scrape B L u existing_metadata existing_sections))"
proof (cases "new_page B")
  case (Inl e)
  then show ?thesis
    by (simp add: js_scrape_def js_errors_of_def error_item_bounded)
next
  case (Inr p)
  obtain r1 p1 where g1: "goto B p u ''networkidle'' 15000 = (r1, p1)"
    by (cases "goto B p u ''networkidle'' 15000")
  show ?thesis
  proof (cases r1)
    case ok: (Inr x)
    with Inr g1 show ?thesis
      using js_interact_bounded by (simp add: js_scrape_def)
  next
    case (Inl e)
    obtain r2 p2 where g2: "goto B p1 u ''domcontentloaded'' 10000 = (r2, p2)"
      by (cases "goto B p1 u ''domcontentloaded'' 10000")
    show ?thesis
    proof (cases r2)
      case ok: (Inr x)
      with Inr g1 Inl g2 show ?thesis
        using js_interact_bounded by (simp add: js_scrape_def)
    next
      case bad: (Inl e2)
      with Inr g1 Inl g2 show ?thesis
        by (simp add: js_scrape_def js_errors_of_def error_item_bounded)
    qed
  qed
qed

text \<open>
  Claim C8. When the page opens and both navigation attempts raise, \<open>js_scrape\<close>
  returns the metadata and sections it was given (the defaults for \<open>None\<close>), exactly
  one error, of phase \<open>render\<close>, and the initial interaction log. The result of the
  request then carries the metadata and sections of the static pass unchanged.
\<close>

theorem navigation_failure_returns_existing:
  assumes "new_page B = Inr p"
    and "goto B p u ''networkidle'' 15000 = (Inl e, p1)"
    and "goto B p1 u ''domcontentloaded'' 10000 = (Inl e2, p2)"
  shows "js_scrape B L u existing_metadata existing_sections =
           ((case existing_metadata of None \<Rightarrow> MetaData_default | Some m \<Rightarrow> m),
            (case existing_sections of None \<Rightarrow> [] | Some s \<Rightarrow> s),
            [\<lparr>message = ''Navigation failed: '' @ take 50 (str e2), phase = ''render''\<rparr>],
            \<lparr>clicks = [], scrolls = 0, pages = [u]\<rparr>) \<and>
         (static_scrape L u = (metadata, secs, errs, html_content, needs_js) \<longrightarrow>
          needs_js \<or> secs = [] \<longrightarrow>
          scrape_url B L u scraped_at =
            \<lparr>url = u, scrapedAt = scraped_at, meta = metadata, sections = secs,
             interactions = \<lparr>clicks = [], scrolls = 0, pages = [u]\<rparr>,
             errors = errs @ [\<lparr>message = ''Navigation failed: '' @ take 50 (str e2),
                               phase = ''render''\<rparr>]\<rparr>)"
proof -
  have js: "js_scrape B L u em es =
           ((case em of None \<Rightarrow> MetaData_default | Some m \<Rightarrow> m),
            (case es of None \<Rightarrow> [] | Some s \<Rightarrow> s),
            [\<lparr>message = ''Navigation failed: '' @ take 50 (str e2), phase = ''render''\<rparr>],
            \<lparr>clicks = [], scrolls = 0, pages = [u]\<rparr>)" for em es
    using assms by (simp add: js_scrape_def error_item_def)
  have "scrape_url B L u scraped_at =
            \<lparr>url = u, scrapedAt = scraped_at, meta = metadata, sections = secs,
             interactions = \<lparr>clicks = [], scrolls = 0, pages = [u]\<rparr>,
             errors = errs @ [\<lparr>message = ''Navigation failed: '' @ take 50 (str e2),
                               phase = ''render''\<rparr>]\<rparr>"
    if "static_scrape L u = (metadata, secs, errs, html_content, needs_js)"
      and "needs_js \<or> secs = []"
    using that by (simp add: scrape_url_def js MetaData_default_def)
  with js show ?thesis by blast
qed

text \<open>
  The page \<open>plain_page\<close> has 11 characters of text, so the render pass runs; in the
  stalled browser both navigation attempts raise.
\<close>

theorem navigation_failure_returns_existing_witness:
  "new_page stalled_browser = Inr () \<and>
   goto stalled_browser () example_url ''networkidle'' 15000 = (Inl (Error ''Timeout exceeded''), ()) \<and>
   goto stalled_browser () example_url ''domcontentloaded'' 10000
     = (Inl (Error ''Timeout exceeded''), ()) \<and>
   static_scrape (page_lib plain_page) example_url =
     (extract_metadata (page_lib plain_page) plain_page example_url,
      [body_section (page_lib plain_page) example_url plain_body], [],
      or_empty (html plain_page), True) \<and>
   scrape_url stalled_browser (page_lib plain_page) example_url ''2025-01-01T00:00:00Z'' =
     \<lparr>url = example_url, scrapedAt = ''2025-01-01T00:00:00Z'',
      meta = extract_metadata (page_lib plain_page) plain_page example_url,
      sections = [body_section (page_lib plain_page) example_url plain_body],
      interactions = \<lparr>clicks = [], scrolls = 0, pages = [example_url]\<rparr>,
      errors = [\<lparr>message = ''Navigation failed: Timeout exceeded'', phase = ''render''\<rparr>]\<rparr>"
proof -
  have n: "new_page stalled_browser = Inr ()"
    and g1: "goto stalled_browser () example_url ''networkidle'' 15000
      = (Inl (Error ''Timeout exceeded''), ())"
    and g2: "goto stalled_browser () example_url ''domcontentloaded'' 10000
      = (Inl (Error ''Timeout exceeded''), ())"
    by (simp_all add: stalled_browser_def)
  have rn: "remove_noise (page_lib plain_page) plain_page = plain_page"
    by (simp add: remove_noise_def NOISE_SELECTORS_def page_lib_def test_lib_def)
  have ex: "extract_sections (page_lib plain_page) plain_page example_url =
     Inr [body_section (page_lib plain_page) example_url plain_body]"
    by (simp add: extract_sections_def SECTION_SELECTORS_def plain_page_def css_first_def)
  have tl: "get_text_content_length plain_page = 11"
    by (simp add: get_text_content_length_def css_first_def plain_page_def plain_body_def leaf_def)
  have fe: "fetch (page_lib plain_page) example_url = Inr (or_empty (html plain_page))"
    and pa: "HTMLParser (page_lib plain_page) (or_empty (html plain_page)) = Inr plain_page"
    by (simp_all add: page_lib_def test_lib_def)
  have h: "static_scrape (page_lib plain_page) example_url =
     (extract_metadata (page_lib plain_page) plain_page example_url,
      [body_section (page_lib plain_page) example_url plain_body], [],
      or_empty (html plain_page), True)"
    by (simp add: static_scrape_def static_parse_def fe pa rn ex tl)
  show ?thesis
    using n g1 g2 h
      navigation_failure_returns_existing[OF n g1 g2,
        where L = "page_lib plain_page"
          and metadata = "extract_metadata (page_lib plain_page) plain_page example_url"
          and secs = "[body_section (page_lib plain_page) example_url plain_body]"
          and errs = "[]" and html_content = "or_empty (html plain_page)"
          and needs_js = True and scraped_at = "''2025-01-01T00:00:00Z''"]
    by simp
qed

section \<open>Claims about failures of the static pass\<close>

text \<open>
  Claim C9. When the fetch raises, or the parsing block raises, \<open>static_scrape\<close>
  returns the default metadata, no sections, one error tagged \<open>fetch\<close> or \<open>parse\<close>,
  and \<open>needs_js = True\<close>; \<open>scrape_url\<close> then runs \<open>js_scrape\<close> (with no existing
  metadata and no existing sections) and builds its result from what that returns, with
  the static error first in the error list.
\<close>

theorem static_failure_forces_render:
  assumes "isl (fetch L u) \<or> (\<exists>markup. fetch L u = Inr markup \<and> isl (static_parse L u markup))"
  shows "\<exists>msg markup.
           static_scrape L u =
             (MetaData_default, [],
              [\<lparr>message = msg, phase = (if isl (fetch L u) then ''fetch'' else ''parse'')\<rparr>],
              markup, True) \<and>
           scrape_url B L u scraped_at =
             (case js_scrape B L u None (Some []) of
                (js_metadata, js_sections, js_errors, js_interactions) \<Rightarrow>
                  \<lparr>url = u, scrapedAt = scraped_at,
                   meta = (if title js_metadata \<noteq> [] then js_metadata else MetaData_default),
                   sections = js_sections,
                   interactions = js_interactions,
                   errors = \<lparr>message = msg,
                              phase = (if isl (fetch L u) then ''fetch'' else ''parse'')\<rparr>
                            # js_errors\<rparr>)"
proof -
  obtain msg markup where st: "static_scrape L u =
      (MetaData_default, [],
       [\<lparr>message = msg, phase = (if isl (fetch L u) then ''fetch'' else ''parse'')\<rparr>],
       markup, True)"
  proof (cases "fetch L u")
    case (Inl err)
    then show ?thesis using that
      by (cases err) (auto simp: static_scrape_def)
  next
    case (Inr markup)
    with assms obtain e where "static_parse L u markup = Inl e"
      by (cases "static_parse L u markup") auto
    with Inr show ?thesis using that by (auto simp: static_scrape_def)
  qed
  have "scrape_url B L u scraped_at =
             (case js_scrape B L u None (Some []) of
                (js_metadata, js_sections, js_errors, js_interactions) \<Rightarrow>
                  \<lparr>url = u, scrapedAt = scraped_at,
                   meta = (if title js_metadata \<noteq> [] then js_metadata else MetaData_default),
                   sections = js_sections,
                   interactions = js_interactions,
                   errors = \<lparr>message = msg,
                              phase = (if isl (fetch L u) then ''fetch'' else ''parse'')\<rparr>
                            # js_errors\<rparr>)"
    by (simp add: scrape_url_def st MetaData_default_def split: prod.splits)
  with st show ?thesis by blast
qed

text \<open>
  A request that times out: the static pass records the fetch error, and the render
  pass is run (here in the stalled browser, where it records a navigation failure).
\<close>

theorem static_failure_forces_render_witness:
  "isl (fetch (test_lib (Inl TimeoutException) (Inr blank_page)) example_url) \<and>
   static_scrape (test_lib (Inl TimeoutException) (Inr blank_page)) example_url =
     (MetaData_default, [], [\<lparr>message = ''Request timeout'', phase = ''fetch''\<rparr>], '''', True) \<and>
   scrape_url stalled_browser (test_lib (Inl TimeoutException) (Inr blank_page)) example_url
       ''2025-01-01T00:00:00Z'' =
     \<lparr>url = example_url, scrapedAt = ''2025-01-01T00:00:00Z'',
      meta = MetaData_default, sections = [],
      interactions = \<lparr>clicks = [], scrolls = 0, pages = [example_url]\<rparr>,
      errors = [\<lparr>message = ''Request timeout'', phase = ''fetch''\<rparr>,
                \<lparr>message = ''Navigation failed: Timeout exceeded'', phase = ''render''\<rparr>]\<rparr>"
proof -
  have f: "isl (fetch (test_lib (Inl TimeoutException) (Inr blank_page)) example_url)"
    by (simp add: test_lib_def)
  have js: "js_scrape stalled_browser (test_lib (Inl TimeoutException) (Inr blank_page))
      example_url None (Some []) =
      (MetaData_default, [],
       [\<lparr>message = ''Navigation failed: Timeout exceeded'', phase = ''render''\<rparr>],
       \<lparr>clicks = [], scrolls = 0, pages = [example_url]\<rparr>)"
    by (simp add: js_scrape_def stalled_browser_def error_item_def)
  have st: "static_scrape (test_lib (Inl TimeoutException) (Inr blank_page)) example_url =
     (MetaData_default, [], [\<lparr>message = ''Request timeout'', phase = ''fetch''\<rparr>], '''', True)"
    by (simp add: static_scrape_def test_lib_def)
  show ?thesis
    using f st js
      static_failure_forces_render[of "test_lib (Inl TimeoutException) (Inr blank_page)"
        example_url stalled_browser "''2025-01-01T00:00:00Z''"]
    by (auto simp: MetaData_default_def)
qed

end
